theory Spec2Isabelle
  imports Complex_Main "HOL-Library.Word"
begin

section \<open>TCP network configuration: wbcnet/imp/TCPNetConfig.cpp\<close>

text \<open>
  The build with networking (\<^verbatim>\<open>DISABLE_NETWORKING\<close> undefined). Log statements are left out;
  everything else a call does is kept, in program order.
\<close>

subsection \<open>Data\<close>

text \<open>
  \<^verbatim>\<open>NetConfig::process_t\<close> is declared in NetConfig.hpp, which is not among the sources.
  \<^verbatim>\<open>get_tcp_port\<close> names three enumerators; every other value the enum type can hold
  (the switch has a fall-through for them) is \<open>OTHER_PROCESS n\<close>.
\<close>

datatype process_t = SERVO | MODEL | USER | OTHER_PROCESS nat

type_synonym in_port_t = "16 word"

text \<open>
  \<^verbatim>\<open>wbcnet::com_status\<close> (not among the sources either): the three values the two
  \<^verbatim>\<open>CreateChannel\<close> methods compare against, and \<open>COM_STATUS n\<close> for any other one.
\<close>

datatype com_status = COM_OK | COM_TRY_AGAIN | COM_OTHER_ERROR | COM_STATUS nat

text \<open>Every \<^verbatim>\<open>throw runtime_error(...)\<close> of the file, one constructor per throw site
  (the message text is built from the same arguments).\<close>

datatype runtime_error =
    invalid_to_process process_t process_t
  | invalid_combination process_t process_t
  | Open_failed process_t process_t in_port_t bool string
  | BindListen_failed process_t process_t
  | Accept_failed process_t process_t com_status
  | Connect_failed process_t process_t com_status

text \<open>What a call of \<^verbatim>\<open>CreateChannel\<close> does to the outside, in program order: socket
  calls, sleeps, and what it writes to \<^verbatim>\<open>cout\<close>.\<close>

datatype sock_event =
    new_SoServer
  | new_SoClient
  | Open in_port_t bool string
  | BindListen nat
  | Accept
  | Connect
  | usleep nat
  | delete_sock
  | cout_accepting process_t process_t
  | cout_connecting process_t process_t
  | cout string

datatype channel = SoServer in_port_t string | SoClient in_port_t string

text \<open>
  The socket wrappers (wbcnet/SockWrap) are outside the sources: what \<^verbatim>\<open>Open\<close>,
  \<^verbatim>\<open>BindListen\<close>, and the \<open>n\<close>-th call of \<^verbatim>\<open>Accept\<close> or \<^verbatim>\<open>Connect\<close> return is given
  by the environment.
\<close>

record server_socket =
  sos_Open :: bool
  sos_BindListen :: bool
  sos_Accept :: "nat \<Rightarrow> com_status"

record client_socket =
  soc_Open :: bool
  soc_Connect :: "nat \<Rightarrow> com_status"

subsection \<open>Operations\<close>

fun get_tcp_port :: "process_t \<Rightarrow> process_t \<Rightarrow> runtime_error + in_port_t" where
  "get_tcp_port SERVO to_process =
     (if MODEL = to_process then Inr 9999
      else if USER = to_process then Inr 8888
      else Inl (invalid_to_process SERVO to_process))"
| "get_tcp_port MODEL to_process =
     (if SERVO = to_process then Inr 9999
      else Inl (invalid_to_process MODEL to_process))"
| "get_tcp_port USER to_process =
     (if SERVO = to_process then Inr 8888
      else Inl (invalid_to_process USER to_process))"
| "get_tcp_port from_process to_process =
     Inl (invalid_combination from_process to_process)"

text \<open>
  The accept loop of the server: \<open>cs\<close> is the status of the last \<^verbatim>\<open>Accept()\<close>, \<open>n\<close> the
  number of calls made so far, \<open>tr\<close> the events so far. The loop has no counter and no
  exit but the status, so it is a partial function: \<open>None\<close> is a loop that never ends.
\<close>

partial_function (option) accept_loop ::
  "(nat \<Rightarrow> com_status) \<Rightarrow> nat \<Rightarrow> com_status \<Rightarrow> sock_event list
     \<Rightarrow> (com_status \<times> sock_event list) option" where
  "accept_loop acc n cs tr =
     (if COM_TRY_AGAIN = cs
      then accept_loop acc (Suc n) (acc n) (tr @ [cout ''.'', usleep 250000, Accept])
      else Some (cs, tr))"

declare accept_loop.simps [code]

definition TCPServerNetConfig_CreateChannel ::
  "string \<Rightarrow> server_socket \<Rightarrow> process_t \<Rightarrow> process_t
     \<Rightarrow> ((runtime_error + channel) \<times> sock_event list) option" where
  "TCPServerNetConfig_CreateChannel bind_ip sos from_process to_process =
     (case get_tcp_port from_process to_process of
        Inl e \<Rightarrow> Some (Inl e, [])
      | Inr port \<Rightarrow>
          if \<not> sos_Open sos
          then Some (Inl (Open_failed from_process to_process port True bind_ip),
                     [new_SoServer, Open port True bind_ip, delete_sock])
          else if \<not> sos_BindListen sos
          then Some (Inl (BindListen_failed from_process to_process),
                     [new_SoServer, Open port True bind_ip, BindListen 1, delete_sock])
          else
            (case accept_loop (sos_Accept sos) 1 (sos_Accept sos 0)
                    [new_SoServer, Open port True bind_ip, BindListen 1,
                     cout_accepting from_process to_process, Accept] of
               None \<Rightarrow> None
             | Some (cs, tr) \<Rightarrow>
                 if COM_OK \<noteq> cs
                 then Some (Inl (Accept_failed from_process to_process cs), tr @ [delete_sock])
                 else Some (Inr (SoServer port bind_ip), tr @ [cout ''OK\<newline>''])))"

text \<open>The connect loop of the client, with the same reading of \<open>cs\<close>, \<open>n\<close> and \<open>tr\<close>.\<close>

partial_function (option) connect_loop ::
  "(nat \<Rightarrow> com_status) \<Rightarrow> nat \<Rightarrow> com_status \<Rightarrow> sock_event list
     \<Rightarrow> (com_status \<times> sock_event list) option" where
  "connect_loop con n cs tr =
     (if COM_TRY_AGAIN = cs \<or> COM_OTHER_ERROR = cs
      then connect_loop con (Suc n) (con n)
             (tr @ [if COM_TRY_AGAIN = cs then cout ''.'' else cout ''x'', usleep 250000, Connect])
      else Some (cs, tr))"

declare connect_loop.simps [code]

definition TCPClientNetConfig_CreateChannel ::
  "string \<Rightarrow> client_socket \<Rightarrow> process_t \<Rightarrow> process_t
     \<Rightarrow> ((runtime_error + channel) \<times> sock_event list) option" where
  "TCPClientNetConfig_CreateChannel server_ip soc from_process to_process =
     (case get_tcp_port from_process to_process of
        Inl e \<Rightarrow> Some (Inl e, [])
      | Inr port \<Rightarrow>
          if \<not> soc_Open soc
          then Some (Inl (Open_failed from_process to_process port True server_ip),
                     [new_SoClient, Open port True server_ip, delete_sock])
          else
            (case connect_loop (soc_Connect soc) 1 (soc_Connect soc 0)
                    [new_SoClient, Open port True server_ip,
                     cout_connecting from_process to_process, Connect] of
               None \<Rightarrow> None
             | Some (cs, tr) \<Rightarrow>
                 if COM_OK \<noteq> cs
                 then Some (Inl (Connect_failed from_process to_process cs), tr @ [delete_sock])
                 else Some (Inr (SoClient port server_ip), tr @ [cout ''OK\<newline>''])))"

text \<open>The events one more round of the connect loop adds, for the status that caused it.\<close>

definition connect_round :: "com_status \<Rightarrow> sock_event list" where
  "connect_round cs =
     [if COM_TRY_AGAIN = cs then cout ''.'' else cout ''x'', usleep 250000, Connect]"

section \<open>Parameters and their reflection registry: opspace/src/Parameter.cpp\<close>

subsection \<open>Data\<close>

datatype parameter_type_t =
    PARAMETER_TYPE_VOID
  | PARAMETER_TYPE_INTEGER
  | PARAMETER_TYPE_STRING
  | PARAMETER_TYPE_REAL
  | PARAMETER_TYPE_VECTOR
  | PARAMETER_TYPE_MATRIX

text \<open>
  \<^verbatim>\<open>jspace::Status\<close> is declared outside the sources. A default-constructed one is what the
  base \<^verbatim>\<open>check\<close> methods return under the name \<^verbatim>\<open>ok\<close>, and \<^verbatim>\<open>Status(false, "type mismatch")\<close>
  sets the flag and the text; \<^verbatim>\<open>! st\<close> reads the flag.
\<close>

record Status =
  ok :: bool
  errstr :: string

definition Status_default :: Status where
  "Status_default = \<lparr>ok = True, errstr = []\<rparr>"

text \<open>
  A parameter does not hold its value: it holds a typed pointer to storage that its owner
  declared. The store has one heap per pointee type, so an \<^verbatim>\<open>int *\<close> reads and writes ints
  only. The type \<open>'r\<close> stands for \<^verbatim>\<open>double\<close>: values of it are copied, never computed with.
\<close>

type_synonym addr = nat

record 'r store =
  int_heap :: "addr \<Rightarrow> 32 word"
  string_heap :: "addr \<Rightarrow> string"
  double_heap :: "addr \<Rightarrow> 'r"
  Vector_heap :: "addr \<Rightarrow> 'r list"
  Matrix_heap :: "addr \<Rightarrow> 'r list list"

text \<open>The five virtual \<^verbatim>\<open>check\<close> methods of the \<^verbatim>\<open>ParameterReflection\<close> a parameter was
  declared by: const methods of the pointer to the storage and the proposed value.\<close>

record 'r checker =
  check_int :: "'r store \<Rightarrow> addr \<Rightarrow> 32 word \<Rightarrow> Status"
  check_string :: "'r store \<Rightarrow> addr \<Rightarrow> string \<Rightarrow> Status"
  check_double :: "'r store \<Rightarrow> addr \<Rightarrow> 'r \<Rightarrow> Status"
  check_Vector :: "'r store \<Rightarrow> addr \<Rightarrow> 'r list \<Rightarrow> Status"
  check_Matrix :: "'r store \<Rightarrow> addr \<Rightarrow> 'r list list \<Rightarrow> Status"

text \<open>The fields \<^verbatim>\<open>name_\<close>, \<^verbatim>\<open>type_\<close>, \<^verbatim>\<open>flags_\<close> and \<^verbatim>\<open>checker_\<close> of the base class (a name
  cannot end in an underscore here); the checker is \<open>None\<close> for a null pointer.\<close>

record 'r Parameter =
  Parameter_name :: string
  Parameter_type :: parameter_type_t
  Parameter_flags :: nat
  Parameter_checker :: "'r checker option"

text \<open>The class hierarchy: the base class itself (a void parameter) and its five subclasses,
  each with its storage pointer (\<^verbatim>\<open>integer_\<close>, \<^verbatim>\<open>string_\<close>, \<^verbatim>\<open>real_\<close>, \<^verbatim>\<open>vector_\<close>,
  \<^verbatim>\<open>matrix_\<close>; written \<open>p_integer\<close> and so on below).\<close>

datatype 'r parameter =
    VoidParameter "'r Parameter"
  | IntegerParameter "'r Parameter" addr
  | StringParameter "'r Parameter" addr
  | RealParameter "'r Parameter" addr
  | VectorParameter "'r Parameter" addr
  | MatrixParameter "'r Parameter" addr

text \<open>The argument of a call of the overloaded \<^verbatim>\<open>set\<close>, tagged with its static type, and the
  storage pointer given to the overloaded \<^verbatim>\<open>declareParameter\<close>, tagged likewise.\<close>

datatype 'r set_arg =
    int_arg "32 word"
  | string_arg string
  | double_arg 'r
  | Vector_arg "'r list"
  | Matrix_arg "'r list list"

datatype storage_ptr =
    int_ptr addr
  | string_ptr addr
  | double_ptr addr
  | Vector_ptr addr
  | Matrix_ptr addr

text \<open>\<^verbatim>\<open>parameter_lookup_\<close>, of type \<^verbatim>\<open>parameter_lookup_t\<close>, is a \<^verbatim>\<open>std::map\<close> from names to
  parameter objects; \<open>checks\<close> are the object's own \<^verbatim>\<open>check\<close> methods.\<close>

record 'r ParameterReflection =
  parameter_lookup :: "string \<rightharpoonup> 'r parameter"
  checks :: "'r checker"

subsection \<open>Operations\<close>

text \<open>The base class overloads \<^verbatim>\<open>Parameter::set\<close>: all five refuse.\<close>

definition Parameter_set :: "'r store \<Rightarrow> Status \<times> 'r store" where
  "Parameter_set h = (\<lparr>ok = False, errstr = ''type mismatch''\<rparr>, h)"

definition IntegerParameter_set ::
  "'r Parameter \<Rightarrow> addr \<Rightarrow> 32 word \<Rightarrow> 'r store \<Rightarrow> Status \<times> 'r store" where
  "IntegerParameter_set this p_integer integer h =
     (case Parameter_checker this of
        Some c \<Rightarrow>
          (let st = check_int c h p_integer integer in
           if \<not> ok st then (st, h)
           else (st, h\<lparr>int_heap := (int_heap h)(p_integer := integer)\<rparr>))
      | None \<Rightarrow> (Status_default, h\<lparr>int_heap := (int_heap h)(p_integer := integer)\<rparr>))"

definition StringParameter_set ::
  "'r Parameter \<Rightarrow> addr \<Rightarrow> string \<Rightarrow> 'r store \<Rightarrow> Status \<times> 'r store" where
  "StringParameter_set this p_string v h =
     (case Parameter_checker this of
        Some c \<Rightarrow>
          (let st = check_string c h p_string v in
           if \<not> ok st then (st, h)
           else (st, h\<lparr>string_heap := (string_heap h)(p_string := v)\<rparr>))
      | None \<Rightarrow> (Status_default, h\<lparr>string_heap := (string_heap h)(p_string := v)\<rparr>))"

definition RealParameter_set ::
  "'r Parameter \<Rightarrow> addr \<Rightarrow> 'r \<Rightarrow> 'r store \<Rightarrow> Status \<times> 'r store" where
  "RealParameter_set this p_real real_value h =
     (case Parameter_checker this of
        Some c \<Rightarrow>
          (let st = check_double c h p_real real_value in
           if \<not> ok st then (st, h)
           else (st, h\<lparr>double_heap := (double_heap h)(p_real := real_value)\<rparr>))
      | None \<Rightarrow> (Status_default, h\<lparr>double_heap := (double_heap h)(p_real := real_value)\<rparr>))"

definition VectorParameter_set ::
  "'r Parameter \<Rightarrow> addr \<Rightarrow> 'r list \<Rightarrow> 'r store \<Rightarrow> Status \<times> 'r store" where
  "VectorParameter_set this p_vector vector h =
     (case Parameter_checker this of
        Some c \<Rightarrow>
          (let st = check_Vector c h p_vector vector in
           if \<not> ok st then (st, h)
           else (st, h\<lparr>Vector_heap := (Vector_heap h)(p_vector := vector)\<rparr>))
      | None \<Rightarrow> (Status_default, h\<lparr>Vector_heap := (Vector_heap h)(p_vector := vector)\<rparr>))"

definition MatrixParameter_set ::
  "'r Parameter \<Rightarrow> addr \<Rightarrow> 'r list list \<Rightarrow> 'r store \<Rightarrow> Status \<times> 'r store" where
  "MatrixParameter_set this p_matrix matrix h =
     (case Parameter_checker this of
        Some c \<Rightarrow>
          (let st = check_Matrix c h p_matrix matrix in
           if \<not> ok st then (st, h)
           else (st, h\<lparr>Matrix_heap := (Matrix_heap h)(p_matrix := matrix)\<rparr>))
      | None \<Rightarrow> (Status_default, h\<lparr>Matrix_heap := (Matrix_heap h)(p_matrix := matrix)\<rparr>))"

text \<open>
  A call \<^verbatim>\<open>p->set(v)\<close>: the overload is chosen by the argument's type, the body by the
  object's class. Each subclass overrides the one overload of its own type and inherits
  the other four from the base class.
\<close>

fun set_param :: "'r parameter \<Rightarrow> 'r set_arg \<Rightarrow> 'r store \<Rightarrow> Status \<times> 'r store" where
  "set_param (IntegerParameter this p_integer) (int_arg v) h = IntegerParameter_set this p_integer v h"
| "set_param (StringParameter this p_string) (string_arg v) h = StringParameter_set this p_string v h"
| "set_param (RealParameter this p_real) (double_arg v) h = RealParameter_set this p_real v h"
| "set_param (VectorParameter this p_vector) (Vector_arg v) h = VectorParameter_set this p_vector v h"
| "set_param (MatrixParameter this p_matrix) (Matrix_arg v) h = MatrixParameter_set this p_matrix v h"
| "set_param p v h = Parameter_set h"

text \<open>What the parameter's storage pointer points at, tagged with its type; a void
  parameter has no storage.\<close>

fun stored :: "'r parameter \<Rightarrow> 'r store \<Rightarrow> 'r set_arg option" where
  "stored (VoidParameter this) h = None"
| "stored (IntegerParameter this p_integer) h = Some (int_arg (int_heap h p_integer))"
| "stored (StringParameter this p_string) h = Some (string_arg (string_heap h p_string))"
| "stored (RealParameter this p_real) h = Some (double_arg (double_heap h p_real))"
| "stored (VectorParameter this p_vector) h = Some (Vector_arg (Vector_heap h p_vector))"
| "stored (MatrixParameter this p_matrix) h = Some (Matrix_arg (Matrix_heap h p_matrix))"

text \<open>The type of a parameter object and of an argument, and the checker's verdict on a
  call whose types agree (a null checker accepts).\<close>

fun base_of :: "'r parameter \<Rightarrow> 'r Parameter" where
  "base_of (VoidParameter this) = this"
| "base_of (IntegerParameter this a) = this"
| "base_of (StringParameter this a) = this"
| "base_of (RealParameter this a) = this"
| "base_of (VectorParameter this a) = this"
| "base_of (MatrixParameter this a) = this"

fun class_type :: "'r parameter \<Rightarrow> parameter_type_t" where
  "class_type (VoidParameter this) = PARAMETER_TYPE_VOID"
| "class_type (IntegerParameter this a) = PARAMETER_TYPE_INTEGER"
| "class_type (StringParameter this a) = PARAMETER_TYPE_STRING"
| "class_type (RealParameter this a) = PARAMETER_TYPE_REAL"
| "class_type (VectorParameter this a) = PARAMETER_TYPE_VECTOR"
| "class_type (MatrixParameter this a) = PARAMETER_TYPE_MATRIX"

fun arg_type :: "'r set_arg \<Rightarrow> parameter_type_t" where
  "arg_type (int_arg v) = PARAMETER_TYPE_INTEGER"
| "arg_type (string_arg v) = PARAMETER_TYPE_STRING"
| "arg_type (double_arg v) = PARAMETER_TYPE_REAL"
| "arg_type (Vector_arg v) = PARAMETER_TYPE_VECTOR"
| "arg_type (Matrix_arg v) = PARAMETER_TYPE_MATRIX"

fun verdict :: "'r parameter \<Rightarrow> 'r set_arg \<Rightarrow> 'r store \<Rightarrow> Status" where
  "verdict (IntegerParameter this a) (int_arg v) h =
     (case Parameter_checker this of None \<Rightarrow> Status_default | Some c \<Rightarrow> check_int c h a v)"
| "verdict (StringParameter this a) (string_arg v) h =
     (case Parameter_checker this of None \<Rightarrow> Status_default | Some c \<Rightarrow> check_string c h a v)"
| "verdict (RealParameter this a) (double_arg v) h =
     (case Parameter_checker this of None \<Rightarrow> Status_default | Some c \<Rightarrow> check_double c h a v)"
| "verdict (VectorParameter this a) (Vector_arg v) h =
     (case Parameter_checker this of None \<Rightarrow> Status_default | Some c \<Rightarrow> check_Vector c h a v)"
| "verdict (MatrixParameter this a) (Matrix_arg v) h =
     (case Parameter_checker this of None \<Rightarrow> Status_default | Some c \<Rightarrow> check_Matrix c h a v)"
| "verdict p v h = \<lparr>ok = False, errstr = ''type mismatch''\<rparr>"

text \<open>\<^verbatim>\<open>std::map::insert\<close>: a key that is present keeps its value.\<close>

definition map_insert :: "('k \<rightharpoonup> 'v) \<Rightarrow> 'k \<Rightarrow> 'v \<Rightarrow> ('k \<rightharpoonup> 'v)" where
  "map_insert m k v = (case m k of None \<Rightarrow> m(k \<mapsto> v) | Some old \<Rightarrow> m)"

definition lookupParameter :: "'r ParameterReflection \<Rightarrow> string \<Rightarrow> 'r parameter option" where
  "lookupParameter this name = parameter_lookup this name"

definition lookupParameter_typed ::
  "'r ParameterReflection \<Rightarrow> string \<Rightarrow> parameter_type_t \<Rightarrow> 'r parameter option" where
  "lookupParameter_typed this name type =
     (case parameter_lookup this name of
        None \<Rightarrow> None
      | Some p \<Rightarrow> if type \<noteq> Parameter_type (base_of p) then None else Some p)"

text \<open>The base class \<^verbatim>\<open>check\<close> methods accept everything.\<close>

definition ParameterReflection_check :: "'r checker" where
  "ParameterReflection_check =
     \<lparr>check_int = (\<lambda>h param v. Status_default),
      check_string = (\<lambda>h param v. Status_default),
      check_double = (\<lambda>h param v. Status_default),
      check_Vector = (\<lambda>h param v. Status_default),
      check_Matrix = (\<lambda>h param v. Status_default)\<rparr>"

text \<open>
  The five overloads of \<^verbatim>\<open>declareParameter\<close>, chosen by the type of the storage pointer.
  Each builds the new parameter object with \<^verbatim>\<open>this\<close> as its checker, inserts it under the
  name, and returns it (also when the insertion changed nothing).
\<close>

fun new_entry :: "'r ParameterReflection \<Rightarrow> string \<Rightarrow> storage_ptr \<Rightarrow> nat \<Rightarrow> 'r parameter" where
  "new_entry this name (int_ptr integer) flags =
     IntegerParameter \<lparr>Parameter_name = name, Parameter_type = PARAMETER_TYPE_INTEGER, Parameter_flags = flags,
                       Parameter_checker = Some (checks this)\<rparr> integer"
| "new_entry this name (string_ptr instance) flags =
     StringParameter \<lparr>Parameter_name = name, Parameter_type = PARAMETER_TYPE_STRING, Parameter_flags = flags,
                      Parameter_checker = Some (checks this)\<rparr> instance"
| "new_entry this name (double_ptr real_ptr) flags =
     RealParameter \<lparr>Parameter_name = name, Parameter_type = PARAMETER_TYPE_REAL, Parameter_flags = flags,
                    Parameter_checker = Some (checks this)\<rparr> real_ptr"
| "new_entry this name (Vector_ptr vector) flags =
     VectorParameter \<lparr>Parameter_name = name, Parameter_type = PARAMETER_TYPE_VECTOR, Parameter_flags = flags,
                      Parameter_checker = Some (checks this)\<rparr> vector"
| "new_entry this name (Matrix_ptr matrix) flags =
     MatrixParameter \<lparr>Parameter_name = name, Parameter_type = PARAMETER_TYPE_MATRIX, Parameter_flags = flags,
                      Parameter_checker = Some (checks this)\<rparr> matrix"

definition declareParameter ::
  "'r ParameterReflection \<Rightarrow> string \<Rightarrow> storage_ptr \<Rightarrow> nat
     \<Rightarrow> 'r parameter \<times> 'r ParameterReflection" where
  "declareParameter this name ptr flags =
     (let entry = new_entry this name ptr flags
      in (entry, this\<lparr>parameter_lookup := map_insert (parameter_lookup this) name entry\<rparr>))"

section \<open>The user process: wbcrun UserProcess.cpp\<close>

subsection \<open>Data\<close>

text \<open>
  The message classes are declared outside the sources. Of a \<^verbatim>\<open>ServiceMessage\<close> the file uses
  the header fields \<^verbatim>\<open>requestID\<close> and \<^verbatim>\<open>nCodes\<close>, the status code vector \<^verbatim>\<open>code\<close> and the
  \<^verbatim>\<open>matrix\<close>, of which only the size (rows, columns) is kept here. Of the task
  specification it uses \<^verbatim>\<open>requestID\<close> (here \<open>task_requestID\<close>) and \<^verbatim>\<open>behaviorID\<close>, which
  \<^verbatim>\<open>Init\<close> sets to the largest \<^verbatim>\<open>uint8_t\<close>.
\<close>

record ServiceMessage =
  requestID :: "8 word"
  nCodes :: nat
  code :: "32 word list"
  matrix :: "nat \<times> nat"

record TaskSpec =
  task_requestID :: "8 word"
  behaviorID :: "8 word"

datatype msg_id = USER_REQUEST | USER_REPLY | TASK_SPEC | OTHER_MESSAGE nat

datatype result_t = SUCCESS | OTHER_RESULT nat

text \<open>An exception object: one thrown by the messaging layer, with its \<^verbatim>\<open>what()\<close>, or the
  \<^verbatim>\<open>runtime_error\<close> of \<^verbatim>\<open>GetBehaviorList\<close>.\<close>

datatype exn = std_exception string | ListBehaviors_failed result_t

text \<open>What the process asks of the network, in program order. An enqueued message is
  recorded as it is at the time of the call.\<close>

datatype message = UserRequest ServiceMessage | TaskSpecification TaskSpec

datatype net_op =
    EnqueueMessage message bool bool
  | SendWait nat
  | ReceiveWait nat nat
  | ListBehaviors

text \<open>The trace level log, and what is written to \<^verbatim>\<open>cout\<close> (one constructor per message
  text, with the values the text is built from).\<close>

datatype log_entry =
    TRACE_unknown_message_ID msg_id
  | TRACE_requestID_mismatch "8 word" "8 word"
  | TRACE_no_status_info
  | TRACE_user_reply_status "32 word option"

datatype console_event =
    prompt
  | FATAL_ERROR_reading_standard_input
  | SYNTAX_ERROR_reading_first_token
  | available_behaviors
  | behavior_lines "string list"
  | SYNTAX_ERROR_reading_behavior_number
  | ERROR_behavior_number_is_negative int
  | ERROR_behavior_number_is_too_large int int
  | already_running_behavior int
  | SYNTAX_ERROR_reading_goal
  | SYNTAX_ERROR_reading_gains
  | SYNTAX_ERROR_unknown_command string
  | EXCEPTION exn
  | sorry_no_curses
  | sorry_no_XMLRPC
  | interactive_goal_request
  | enter_field nat
  | ERROR_reading_standard_input
  | ERROR_reading_field
  | Dump_reply ServiceMessage

text \<open>
  The object and the two file-level flags, the standard input still to be read (a list of
  lines, and the stream's fail bit), and what the process has done so far: network
  operations, console output, log entries.
\<close>

record UserProcess =
  m_user_request :: ServiceMessage
  m_user_reply :: ServiceMessage
  m_task_spec :: TaskSpec
  m_lazy_behavior_list :: "string list"
  ncurses_active :: bool
  keyboard_querry :: bool
  stdin :: "string list"
  cin_fail :: bool
  net :: "net_op list"
  console :: "console_event list"
  logged :: "log_entry list"

text \<open>The request builders of \<^verbatim>\<open>wbcrun::srv\<close>, by name and arguments.\<close>

datatype 'd srv_call =
    get_pos
  | get_end_pos
  | get_vel
  | get_torques
  | float_command
  | activate_command
  | toggle_recorder
  | set_goal "'d list" nat
  | set_gains "'d list" nat

datatype incoming = Incoming msg_id ServiceMessage

text \<open>
  Everything the file calls but does not define. The answers of the network depend on all
  operations issued so far. \<open>'d\<close> stands for \<^verbatim>\<open>double\<close>.
  \<^item> \<open>isTraceEnabled\<close>: the logger's level test.
  \<^item> \<open>SendWait_throws\<close>: the exception of this \<^verbatim>\<open>SendWait\<close>, if it throws.
  \<^item> \<open>ReceiveWait_delivers\<close>: the exception of this \<^verbatim>\<open>ReceiveWait\<close>, or the messages it
    receives and dispatches.
  \<^item> \<open>ListBehaviors_answers\<close>: for \<^verbatim>\<open>DirectoryCmdClient::ListBehaviors\<close> called on a listing,
    an exception or the result code, and the listing it leaves.
  \<^item> \<open>read_doubles n\<close>: \<open>n\<close> times \<^verbatim>\<open>>>\<close> into a \<^verbatim>\<open>double\<close> on the rest of a line; \<open>None\<close> when
    the stream fails.
  \<^item> \<open>deg_to_rad\<close>: multiplication by \<^verbatim>\<open>M_PI / 180\<close>.
  \<^item> \<open>srv\<close>: the effect of a request builder on the request message.
\<close>

record 'd environment =
  isTraceEnabled :: bool
  SendWait_throws :: "net_op list \<Rightarrow> exn option"
  ReceiveWait_delivers :: "net_op list \<Rightarrow> exn + incoming list"
  ListBehaviors_answers :: "net_op list \<Rightarrow> string list \<Rightarrow> (exn + result_t) \<times> string list"
  read_doubles :: "nat \<Rightarrow> string \<Rightarrow> 'd list option"
  deg_to_rad :: "'d \<Rightarrow> 'd"
  srv :: "'d srv_call \<Rightarrow> ServiceMessage \<Rightarrow> ServiceMessage"

subsection \<open>Sequencing with exceptions\<close>

text \<open>A statement runs on the state and ends normally (\<open>None\<close>) or by throwing; \<open>and_then\<close> is
  the semicolon.\<close>

type_synonym statement = "UserProcess \<Rightarrow> exn option \<times> UserProcess"

definition and_then :: "statement \<Rightarrow> statement \<Rightarrow> statement" where
  "and_then f g s = (case f s of (Some e, s') \<Rightarrow> (Some e, s') | (None, s') \<Rightarrow> g s')"

definition put :: "console_event \<Rightarrow> UserProcess \<Rightarrow> UserProcess" where
  "put ev s = s\<lparr>console := console s @ [ev]\<rparr>"

definition LOG_TRACE :: "'d environment \<Rightarrow> log_entry \<Rightarrow> UserProcess \<Rightarrow> UserProcess" where
  "LOG_TRACE env entry s = (if isTraceEnabled env then s\<lparr>logged := logged s @ [entry]\<rparr> else s)"

subsection \<open>Message handling\<close>

definition HandleMessagePayload :: "'d environment \<Rightarrow> msg_id \<Rightarrow> UserProcess \<Rightarrow> int \<times> UserProcess" where
  "HandleMessagePayload env msg_id s =
     (if USER_REPLY \<noteq> msg_id then (0, LOG_TRACE env (TRACE_unknown_message_ID msg_id) s)
      else
        let s1 =
              (if isTraceEnabled env then
                 let s' = (if requestID (m_user_request s) \<noteq> requestID (m_user_reply s)
                           then LOG_TRACE env (TRACE_requestID_mismatch
                                  (requestID (m_user_request s)) (requestID (m_user_reply s))) s
                           else s)
                 in if 1 < nCodes (m_user_reply s')
                    then LOG_TRACE env TRACE_no_status_info s'
                    else LOG_TRACE env (TRACE_user_reply_status
                           (case code (m_user_reply s') of [] \<Rightarrow> None | c # cs \<Rightarrow> Some c)) s'
               else s);
            s2 = (if \<not> ncurses_active s1 \<and> keyboard_querry s1
                  then put (Dump_reply (m_user_reply s1)) s1 else s1)
        in (0, s2))"

text \<open>
  Modelled from the spec: the operations of \<^verbatim>\<open>wbcnet::Process\<close>, whose code is not among the
  sources. \<^verbatim>\<open>EnqueueMessage\<close> queues a message and does not block; \<^verbatim>\<open>SendWait\<close> flushes or
  throws; \<^verbatim>\<open>ReceiveWait\<close> throws, or receives messages and dispatches each: a message of
  the type that \<^verbatim>\<open>Init\<close> created the handler for (\<open>USER_REPLY\<close>, unpacked into
  \<^verbatim>\<open>m_user_reply\<close>) is stored, then \<^verbatim>\<open>HandleMessagePayload\<close> is called with its type.
\<close>

definition Process_EnqueueMessage :: "message \<Rightarrow> bool \<Rightarrow> bool \<Rightarrow> statement" where
  "Process_EnqueueMessage m ack_mode auto_delete s =
     (None, s\<lparr>net := net s @ [EnqueueMessage m ack_mode auto_delete]\<rparr>)"

definition Process_SendWait :: "'d environment \<Rightarrow> nat \<Rightarrow> statement" where
  "Process_SendWait env ms s =
     (let s1 = s\<lparr>net := net s @ [SendWait ms]\<rparr>
      in (SendWait_throws env (net s1), s1))"

fun dispatch :: "'d environment \<Rightarrow> incoming list \<Rightarrow> UserProcess \<Rightarrow> UserProcess" where
  "dispatch env [] s = s"
| "dispatch env (Incoming msg_id payload # rest) s =
     dispatch env rest
       (snd (HandleMessagePayload env msg_id
          (if msg_id = USER_REPLY then s\<lparr>m_user_reply := payload\<rparr> else s)))"

definition Process_ReceiveWait :: "'d environment \<Rightarrow> nat \<Rightarrow> nat \<Rightarrow> statement" where
  "Process_ReceiveWait env ms min_messages s =
     (let s1 = s\<lparr>net := net s @ [ReceiveWait ms min_messages]\<rparr>
      in case ReceiveWait_delivers env (net s1) of
           Inl e \<Rightarrow> (Some e, s1)
         | Inr msgs \<Rightarrow> (None, dispatch env msgs s1))"

subsection \<open>The service transaction\<close>

definition SendWaitReceive :: "'d environment \<Rightarrow> statement" where
  "SendWaitReceive env =
     and_then (\<lambda>s. Process_EnqueueMessage (UserRequest (m_user_request s)) False False s)
    (and_then (Process_SendWait env 10000)
    (and_then (\<lambda>s. (None, s\<lparr>m_user_reply := (m_user_reply s)\<lparr>code := []\<rparr>\<rparr>))
    (and_then (\<lambda>s. (None, s\<lparr>m_user_reply := (m_user_reply s)\<lparr>matrix := (0, 0)\<rparr>\<rparr>))
              (Process_ReceiveWait env 10000 1))))"

subsection \<open>The lazily fetched behavior list\<close>

definition GetBehaviorList :: "'d environment \<Rightarrow> statement" where
  "GetBehaviorList env s =
     (if m_lazy_behavior_list s = [] then
        let s1 = s\<lparr>net := net s @ [ListBehaviors]\<rparr>
        in case ListBehaviors_answers env (net s1) (m_lazy_behavior_list s1) of
             (Inl e, listing) \<Rightarrow> (Some e, s1\<lparr>m_lazy_behavior_list := listing\<rparr>)
           | (Inr stat, listing) \<Rightarrow>
               if SUCCESS \<noteq> stat
               then (Some (ListBehaviors_failed stat), s1\<lparr>m_lazy_behavior_list := listing\<rparr>)
               else (None, s1\<lparr>m_lazy_behavior_list := listing\<rparr>)
      else (None, s))"

text \<open>A number of calls in a row: what each returned (how it ended, and the list the
  returned reference shows), and the state after the last.\<close>

fun GetBehaviorList_calls ::
  "'d environment \<Rightarrow> nat \<Rightarrow> UserProcess \<Rightarrow> (exn option \<times> string list) list \<times> UserProcess" where
  "GetBehaviorList_calls env 0 s = ([], s)"
| "GetBehaviorList_calls env (Suc n) s =
     (case GetBehaviorList env s of
        (r, s1) \<Rightarrow>
          (case GetBehaviorList_calls env n s1 of
             (rs, s2) \<Rightarrow> ((r, m_lazy_behavior_list s1) # rs, s2)))"

subsection \<open>Reading the console\<close>

definition buflen :: nat where
  "buflen = 1024"

text \<open>
  \<^verbatim>\<open>cin.getline(buffer, buflen)\<close>: fails on a stream that has failed, at the end of input,
  and on a line that does not fit the buffer (of which it consumes \<open>buflen - 1\<close> characters);
  a failure sets the fail bit, which nothing in the file clears.
\<close>

definition getline :: "UserProcess \<Rightarrow> string option \<times> UserProcess" where
  "getline s =
     (if cin_fail s then (None, s)
      else case stdin s of
             [] \<Rightarrow> (None, s\<lparr>cin_fail := True\<rparr>)
           | l # ls \<Rightarrow>
               if buflen \<le> length l
               then (None, s\<lparr>stdin := drop (buflen - 1) l # ls, cin_fail := True\<rparr>)
               else (Some l, s\<lparr>stdin := ls\<rparr>))"

text \<open>The buffer is read as a C string: it ends at the first NUL.\<close>

definition c_str :: "string \<Rightarrow> string" where
  "c_str l = takeWhile (\<lambda>c. c \<noteq> CHR 0x00) l"

definition isspace :: "char \<Rightarrow> bool" where
  "isspace c = (c \<in> set [CHR '' '', CHR 0x09, CHR 0x0A, CHR 0x0B, CHR 0x0C, CHR 0x0D])"

definition isdigit :: "char \<Rightarrow> bool" where
  "isdigit c = (48 \<le> (of_char c :: nat) \<and> (of_char c :: nat) \<le> 57)"

text \<open>\<^verbatim>\<open>line >> token\<close> for a string: skips white space, takes the characters up to the next
  white space, and fails when there are none. The result is the token and the rest.\<close>

definition read_token :: "string \<Rightarrow> (string \<times> string) option" where
  "read_token l =
     (let l1 = dropWhile isspace l;
          token = takeWhile (\<lambda>c. \<not> isspace c) l1
      in if token = [] then None
         else Some (token, dropWhile (\<lambda>c. \<not> isspace c) l1))"

definition decimal :: "string \<Rightarrow> int" where
  "decimal ds = foldl (\<lambda>acc c. 10 * acc + (int (of_char c) - 48)) 0 ds"

text \<open>\<^verbatim>\<open>line >> bnum\<close> for an \<^verbatim>\<open>int\<close>: skips white space, reads an optional sign and decimal
  digits; fails without a digit and on a value that does not fit 32 bits.\<close>

definition read_int :: "string \<Rightarrow> (int \<times> string) option" where
  "read_int l =
     (let l1 = dropWhile isspace l;
          negative = (l1 \<noteq> [] \<and> hd l1 = CHR ''-'');
          l2 = (if l1 \<noteq> [] \<and> (hd l1 = CHR ''-'' \<or> hd l1 = CHR ''+'') then tl l1 else l1);
          ds = takeWhile isdigit l2;
          v = (if negative then - decimal ds else decimal ds)
      in if ds = [] \<or> v < - (2 ^ 31) \<or> 2 ^ 31 - 1 < v then None
         else Some (v, dropWhile isdigit l2))"

text \<open>\<^verbatim>\<open>static_cast<int>\<close> of a \<^verbatim>\<open>size_t\<close>: the low 32 bits, read as signed.\<close>

definition static_cast_int :: "nat \<Rightarrow> int" where
  "static_cast_int n = sint (word_of_nat n :: 32 word)"

subsection \<open>The interactive goal request\<close>

text \<open>
  The loop over the six fields: \<open>ii\<close> is the index of the field asked for, \<open>goal\<close> the
  fields read so far. A line that does not parse asks for the same field again; a failed
  read of standard input leaves the function at once, with no request built.
\<close>

function goal_fields ::
  "'d environment \<Rightarrow> nat \<Rightarrow> 'd list \<Rightarrow> UserProcess \<Rightarrow> 'd list option \<times> UserProcess" where
  "goal_fields env ii goal s =
     (if 6 \<le> ii then (Some goal, s)
      else
        (case getline (put (enter_field ii) s) of
           (None, s1) \<Rightarrow> (None, put ERROR_reading_standard_input s1)
         | (Some buffer, s1) \<Rightarrow>
             (case read_doubles env 1 (c_str buffer) of
                Some [x] \<Rightarrow> goal_fields env (Suc ii) (goal @ [x]) s1
              | _ \<Rightarrow> goal_fields env ii goal (put ERROR_reading_field s1))))"
  by pat_completeness auto
termination
proof (relation "measure (\<lambda>(env, ii, goal, s). length (stdin s))")
  show "wf (measure (\<lambda>(env, ii, goal, s). length (stdin s)))" by simp
qed (auto simp add: getline_def put_def split: if_splits list.splits)

definition InteractiveGoalRequest :: "'d environment \<Rightarrow> UserProcess \<Rightarrow> UserProcess" where
  "InteractiveGoalRequest env s =
     (case goal_fields env 0 [] (put interactive_goal_request s) of
        (None, s1) \<Rightarrow> s1
      | (Some goal, s1) \<Rightarrow>
          s1\<lparr>m_user_request :=
               srv env (set_goal (take 3 goal @ map (deg_to_rad env) (drop 3 goal)) 6)
                 (m_user_request s1)\<rparr>)"

subsection \<open>One step of the console\<close>

text \<open>The block that most commands end with: enqueue the request, send, wait for one reply.\<close>

definition send_request :: "'d environment \<Rightarrow> statement" where
  "send_request env =
     and_then (\<lambda>s. Process_EnqueueMessage (UserRequest (m_user_request s)) False False s)
    (and_then (Process_SendWait env 10000)
              (Process_ReceiveWait env 10000 1))"

definition build :: "'d environment \<Rightarrow> 'd srv_call \<Rightarrow> statement" where
  "build env call s = (None, s\<lparr>m_user_request := srv env call (m_user_request s)\<rparr>)"

text \<open>
  \<^verbatim>\<open>b?\<close>: after the heading, the loop header calls \<^verbatim>\<open>GetBehaviorList()\<close> twice. The first
  call gives \<^verbatim>\<open>begin()\<close>, an iterator into the list as that call leaves it; the second gives
  \<^verbatim>\<open>end()\<close>, of the list as the second call leaves it. These are one and the same list
  unless the first call left it empty, so that the second fetched again: the loop then
  starts from the \<^verbatim>\<open>begin()\<close> of an empty list, and no name is printed.
\<close>

definition list_behaviors :: "'d environment \<Rightarrow> statement" where
  "list_behaviors env s =
     (case GetBehaviorList env (put available_behaviors s) of
        (Some e, s1) \<Rightarrow> (Some e, s1)
      | (None, s1) \<Rightarrow>
          (case GetBehaviorList env s1 of
             (Some e, s2) \<Rightarrow> (Some e, s2)
           | (None, s2) \<Rightarrow>
               (None, put (behavior_lines
                             (if m_lazy_behavior_list s1 = [] then []
                              else m_lazy_behavior_list s2)) s2)))"

text \<open>\<^verbatim>\<open>b <N>\<close> and \<^verbatim>\<open>B <N>\<close>.\<close>

definition switch_behavior :: "'d environment \<Rightarrow> string \<Rightarrow> string \<Rightarrow> statement" where
  "switch_behavior env token line s =
     (case read_int line of
        None \<Rightarrow> (None, put SYNTAX_ERROR_reading_behavior_number s)
      | Some (bnum, rest) \<Rightarrow>
          if 0 > bnum then (None, put (ERROR_behavior_number_is_negative bnum) s)
          else
            (case GetBehaviorList env s of
               (Some e, s1) \<Rightarrow> (Some e, s1)
             | (None, s1) \<Rightarrow>
                 let nbehaviors = static_cast_int (length (m_lazy_behavior_list s1))
                 in if nbehaviors \<le> bnum
                    then (None, put (ERROR_behavior_number_is_too_large bnum (nbehaviors - 1)) s1)
                    else if ''b'' = token \<and> bnum = uint (behaviorID (m_task_spec s1))
                    then (None, put (already_running_behavior bnum) s1)
                    else
                      let s2 = s1\<lparr>m_task_spec :=
                                 \<lparr>task_requestID = task_requestID (m_task_spec s1) + 1,
                                  behaviorID = word_of_int bnum\<rparr>\<rparr>
                      in and_then
                           (Process_EnqueueMessage (TaskSpecification (m_task_spec s2)) False False)
                           (Process_SendWait env 10000) s2))"

text \<open>\<^verbatim>\<open>setgoal\<close> and \<^verbatim>\<open>setgains\<close>: \<open>n\<close> numbers, then the request.\<close>

definition set_numbers ::
  "'d environment \<Rightarrow> nat \<Rightarrow> console_event \<Rightarrow> ('d list \<Rightarrow> nat \<Rightarrow> 'd srv_call) \<Rightarrow> string \<Rightarrow> statement" where
  "set_numbers env n complaint call line s =
     (case read_doubles env n line of
        None \<Rightarrow> (None, put complaint s)
      | Some xs \<Rightarrow> and_then (build env (call xs n)) (send_request env) s)"

text \<open>
  The body of the \<^verbatim>\<open>try\<close> block, in the order of the source. The key press loop and the
  XML-RPC loop are those of a build without curses and without xmlrpc++
  (\<^verbatim>\<open>WBCRUN_HAVE_CURSES\<close> and \<^verbatim>\<open>WBCRUN_HAVE_XMLRPC\<close> undefined), which print a notice.
\<close>

definition command :: "'d environment \<Rightarrow> string \<Rightarrow> string \<Rightarrow> statement" where
  "command env token line =
     (if ''pos'' = token then and_then (build env get_pos) (send_request env)
      else if ''endpos'' = token then and_then (build env get_end_pos) (send_request env)
      else if ''vel'' = token then and_then (build env get_vel) (send_request env)
      else if ''tau'' = token then and_then (build env get_torques) (send_request env)
      else if ''go'' = token
        then and_then (\<lambda>s. (None, InteractiveGoalRequest env s)) (send_request env)
      else if ''float'' = token then and_then (build env float_command) (send_request env)
      else if ''activate'' = token then and_then (build env activate_command) (send_request env)
      else if ''b?'' = token then list_behaviors env
      else if ''b'' = token \<or> ''B'' = token then switch_behavior env token line
      else if ''setgoal'' = token
        then set_numbers env 7 SYNTAX_ERROR_reading_goal set_goal line
      else if ''r'' = token
        then and_then (build env toggle_recorder)
            (and_then (Process_SendWait env 10000) (Process_ReceiveWait env 10000 1))
      else if ''k'' = token then (\<lambda>s. (None, put sorry_no_curses s))
      else if ''xmlrpc'' = token then (\<lambda>s. (None, put sorry_no_XMLRPC s))
      else if ''setgains'' = token
        then set_numbers env 4 SYNTAX_ERROR_reading_gains set_gains line
      else (\<lambda>s. (None, put (SYNTAX_ERROR_unknown_command token) s)))"

definition known_commands :: "string list" where
  "known_commands =
     [''pos'', ''endpos'', ''vel'', ''tau'', ''go'', ''float'', ''activate'', ''b?'', ''b'', ''B'',
      ''setgoal'', ''r'', ''k'', ''xmlrpc'', ''setgains'']"

definition Step :: "'d environment \<Rightarrow> UserProcess \<Rightarrow> bool \<times> UserProcess" where
  "Step env s =
     (case getline (put prompt (s\<lparr>keyboard_querry := False\<rparr>)) of
        (None, s1) \<Rightarrow> (False, put FATAL_ERROR_reading_standard_input s1)
      | (Some buffer, s1) \<Rightarrow>
          (case read_token (c_str buffer) of
             None \<Rightarrow> (True, put SYNTAX_ERROR_reading_first_token (s1\<lparr>keyboard_querry := True\<rparr>))
           | Some (token, line) \<Rightarrow>
               (case command env token line (s1\<lparr>keyboard_querry := True\<rparr>) of
                  (Some e, s2) \<Rightarrow> (False, put (EXCEPTION e) s2)
                | (None, s2) \<Rightarrow> (True, s2))))"

text \<open>The commands that only build a request and send it, with their builders; the two
  that read numbers first, with how many; and the state in which the \<^verbatim>\<open>try\<close> block starts
  after a line has been read: prompt written, line consumed, flag set.\<close>

definition request_commands :: "(string \<times> 'd srv_call) list" where
  "request_commands =
     [(''pos'', get_pos), (''endpos'', get_end_pos), (''vel'', get_vel), (''tau'', get_torques),
      (''float'', float_command), (''activate'', activate_command)]"

definition numeric_commands :: "(string \<times> nat \<times> ('d list \<Rightarrow> nat \<Rightarrow> 'd srv_call)) list" where
  "numeric_commands = [(''setgoal'', 7, set_goal), (''setgains'', 4, set_gains)]"

definition after_reading :: "string list \<Rightarrow> UserProcess \<Rightarrow> UserProcess" where
  "after_reading ls s = s\<lparr>console := console s @ [prompt], stdin := ls, keyboard_querry := True\<rparr>"

subsection \<open>Sample values\<close>

text \<open>A checker that refuses the integer 0, a store, an integer parameter at address 3,
  and a registry with no entries.\<close>

definition positive_only :: "real checker" where
  "positive_only = ParameterReflection_check
     \<lparr>check_int := (\<lambda>h param v. if v = 0 then \<lparr>ok = False, errstr = ''zero''\<rparr> else Status_default)\<rparr>"

definition zero_store :: "real store" where
  "zero_store = \<lparr>int_heap = (\<lambda>a. 0), string_heap = (\<lambda>a. []), double_heap = (\<lambda>a. 0),
      Vector_heap = (\<lambda>a. []), Matrix_heap = (\<lambda>a. [])\<rparr>"

definition kp_param :: "real parameter" where
  "kp_param = IntegerParameter \<lparr>Parameter_name = ''kp'', Parameter_type = PARAMETER_TYPE_INTEGER,
      Parameter_flags = 0, Parameter_checker = Some positive_only\<rparr> 3"

definition empty_registry :: "real ParameterReflection" where
  "empty_registry = \<lparr>parameter_lookup = Map.empty, checks = ParameterReflection_check\<rparr>"

text \<open>A network on which nothing throws and every wait receives one reply, with trace logging
  off and a directory of two behaviors; and a process that has sent or fetched nothing yet.\<close>

definition sample_reply :: ServiceMessage where
  "sample_reply = \<lparr>requestID = 7, nCodes = 1, code = [0], matrix = (0, 0)\<rparr>"

definition sample_network :: "real environment" where
  "sample_network =
     \<lparr>isTraceEnabled = False,
      SendWait_throws = (\<lambda>ops. None),
      ReceiveWait_delivers = (\<lambda>ops. Inr [Incoming USER_REPLY sample_reply]),
      ListBehaviors_answers = (\<lambda>ops listing. (Inr SUCCESS, [''float'', ''reach''])),
      read_doubles = (\<lambda>n l. None),
      deg_to_rad = (\<lambda>x. x),
      srv = (\<lambda>call m. m)\<rparr>"

definition fresh_process :: UserProcess where
  "fresh_process =
     \<lparr>m_user_request = \<lparr>requestID = 8, nCodes = 0, code = [], matrix = (0, 0)\<rparr>,
      m_user_reply = \<lparr>requestID = 6, nCodes = 2, code = [1, 2], matrix = (2, 3)\<rparr>,
      m_task_spec = \<lparr>task_requestID = 0, behaviorID = 255\<rparr>,
      m_lazy_behavior_list = [],
      ncurses_active = False,
      keyboard_querry = False,
      stdin = [],
      cin_fail = False,
      net = [],
      console = [],
      logged = []\<rparr>"

section \<open>Properties of the TCP network configuration\<close>

lemma concat_map_upt_Suc:
  "concat (map f [0..<Suc k]) = f 0 @ concat (map (\<lambda>j. f (Suc j)) [0..<k])"
proof -
  have "[0..<Suc k] = 0 # map Suc [0..<k]"
    by (simp add: upt_conv_Cons map_Suc_upt del: upt_Suc)
  then show ?thesis
    by (simp add: comp_def del: upt_Suc)
qed

lemma accept_loop_returns:
  assumes "\<forall>j<k. acc (m + j) = COM_TRY_AGAIN" and "acc (m + k) \<noteq> COM_TRY_AGAIN"
  shows "accept_loop acc (Suc m) (acc m) tr =
           Some (acc (m + k), tr @ concat (replicate k [cout ''.'', usleep 250000, Accept]))"
  using assms
proof (induction k arbitrary: m tr)
  case 0
  then show ?case by (subst accept_loop.simps) simp
next
  case (Suc k)
  have first: "acc m = COM_TRY_AGAIN" using Suc.prems(1) by (metis add.right_neutral zero_less_Suc)
  have rest: "\<forall>j<k. acc (Suc m + j) = COM_TRY_AGAIN" using Suc.prems(1) by auto
  have last: "acc (Suc m + k) \<noteq> COM_TRY_AGAIN" using Suc.prems(2) by simp
  have "accept_loop acc (Suc m) (acc m) tr =
          accept_loop acc (Suc (Suc m)) (acc (Suc m)) (tr @ [cout ''.'', usleep 250000, Accept])"
    using first by (subst accept_loop.simps) simp
  also have "\<dots> = Some (acc (Suc m + k),
       (tr @ [cout ''.'', usleep 250000, Accept])
         @ concat (replicate k [cout ''.'', usleep 250000, Accept]))"
    by (rule Suc.IH [OF rest last])
  finally show ?case
    by simp
qed

lemma accept_loop_Some_stops:
  assumes "accept_loop acc n cs tr = Some y"
  shows "cs \<noteq> COM_TRY_AGAIN \<or> (\<exists>j\<ge>n. acc j \<noteq> COM_TRY_AGAIN)"
proof (rule accept_loop.raw_induct
    [where P = "\<lambda>acc n cs tr y. cs \<noteq> COM_TRY_AGAIN \<or> (\<exists>j\<ge>n. acc j \<noteq> COM_TRY_AGAIN)",
     OF _ assms])
  fix f :: "(nat \<Rightarrow> com_status) \<Rightarrow> nat \<Rightarrow> com_status \<Rightarrow> sock_event list
     \<Rightarrow> (com_status \<times> sock_event list) option"
  fix acc n cs tr and y :: "com_status \<times> sock_event list"
  assume IH: "\<And>acc n cs tr y. f acc n cs tr = Some y
      \<Longrightarrow> cs \<noteq> COM_TRY_AGAIN \<or> (\<exists>j\<ge>n. acc j \<noteq> COM_TRY_AGAIN)"
    and step: "(if COM_TRY_AGAIN = cs
          then f acc (Suc n) (acc n) (tr @ [cout ''.'', usleep 250000, Accept])
          else Some (cs, tr)) = Some y"
  show "cs \<noteq> COM_TRY_AGAIN \<or> (\<exists>j\<ge>n. acc j \<noteq> COM_TRY_AGAIN)"
  proof (cases "COM_TRY_AGAIN = cs")
    case True
    with step have "f acc (Suc n) (acc n) (tr @ [cout ''.'', usleep 250000, Accept]) = Some y"
      by simp
    from IH [OF this]
    have "acc n \<noteq> COM_TRY_AGAIN \<or> (\<exists>j\<ge>Suc n. acc j \<noteq> COM_TRY_AGAIN)" .
    then show ?thesis
    proof
      assume "acc n \<noteq> COM_TRY_AGAIN"
      then have "n \<le> n \<and> acc n \<noteq> COM_TRY_AGAIN" by simp
      then show ?thesis by blast
    next
      assume "\<exists>j\<ge>Suc n. acc j \<noteq> COM_TRY_AGAIN"
      then obtain j where "Suc n \<le> j" and "acc j \<noteq> COM_TRY_AGAIN" by blast
      then have "n \<le> j \<and> acc j \<noteq> COM_TRY_AGAIN" by simp
      then show ?thesis by blast
    qed
  next
    case False
    then have "cs \<noteq> COM_TRY_AGAIN" by simp
    then show ?thesis by (rule disjI1)
  qed
qed

lemma accept_loop_diverges:
  assumes "\<forall>j. acc j = COM_TRY_AGAIN"
  shows "accept_loop acc n COM_TRY_AGAIN tr = None"
proof (cases "accept_loop acc n COM_TRY_AGAIN tr")
  case None
  then show ?thesis .
next
  case (Some y)
  from accept_loop_Some_stops [OF this] assms show ?thesis by simp
qed

lemma connect_loop_returns:
  assumes "\<forall>j<k. con (m + j) = COM_TRY_AGAIN \<or> con (m + j) = COM_OTHER_ERROR"
    and "con (m + k) \<noteq> COM_TRY_AGAIN" and "con (m + k) \<noteq> COM_OTHER_ERROR"
  shows "connect_loop con (Suc m) (con m) tr =
           Some (con (m + k), tr @ concat (map (\<lambda>j. connect_round (con (m + j))) [0..<k]))"
  using assms
proof (induction k arbitrary: m tr)
  case 0
  then show ?case by (subst connect_loop.simps) auto
next
  case (Suc k)
  have first: "con m = COM_TRY_AGAIN \<or> con m = COM_OTHER_ERROR"
    using Suc.prems(1) by (metis add.right_neutral zero_less_Suc)
  have rest: "\<forall>j<k. con (Suc m + j) = COM_TRY_AGAIN \<or> con (Suc m + j) = COM_OTHER_ERROR"
    using Suc.prems(1) by auto
  have last: "con (Suc m + k) \<noteq> COM_TRY_AGAIN" "con (Suc m + k) \<noteq> COM_OTHER_ERROR"
    using Suc.prems(2,3) by simp_all
  have "connect_loop con (Suc m) (con m) tr =
          connect_loop con (Suc (Suc m)) (con (Suc m)) (tr @ connect_round (con m))"
    using first by (subst connect_loop.simps) (auto simp add: connect_round_def)
  also have "\<dots> = Some (con (Suc m + k),
       (tr @ connect_round (con m)) @ concat (map (\<lambda>j. connect_round (con (Suc m + j))) [0..<k]))"
    by (rule Suc.IH [OF rest last])
  finally show ?case
    by (simp add: concat_map_upt_Suc del: upt_Suc)
qed

lemma accept_loop_extends:
  assumes "accept_loop acc n cs tr = Some y"
  shows "\<exists>more. snd y = tr @ more"
proof (rule accept_loop.raw_induct
    [where P = "\<lambda>acc n cs tr y. \<exists>more. snd y = tr @ more", OF _ assms])
  fix f :: "(nat \<Rightarrow> com_status) \<Rightarrow> nat \<Rightarrow> com_status \<Rightarrow> sock_event list
     \<Rightarrow> (com_status \<times> sock_event list) option"
  fix acc n cs tr and y :: "com_status \<times> sock_event list"
  assume IH: "\<And>acc n cs tr y. f acc n cs tr = Some y \<Longrightarrow> \<exists>more. snd y = tr @ more"
    and step: "(if COM_TRY_AGAIN = cs
          then f acc (Suc n) (acc n) (tr @ [cout ''.'', usleep 250000, Accept])
          else Some (cs, tr)) = Some y"
  show "\<exists>more. snd y = tr @ more"
  proof (cases "COM_TRY_AGAIN = cs")
    case True
    with step have "f acc (Suc n) (acc n) (tr @ [cout ''.'', usleep 250000, Accept]) = Some y"
      by simp
    from IH [OF this] obtain more where "snd y = (tr @ [cout ''.'', usleep 250000, Accept]) @ more"
      by blast
    then have "snd y = tr @ ([cout ''.'', usleep 250000, Accept] @ more)" by simp
    then show ?thesis by blast
  next
    case False
    with step have "snd y = tr @ []" by auto
    then show ?thesis by blast
  qed
qed

lemma connect_loop_extends:
  assumes "connect_loop con n cs tr = Some y"
  shows "\<exists>more. snd y = tr @ more"
proof (rule connect_loop.raw_induct
    [where P = "\<lambda>con n cs tr y. \<exists>more. snd y = tr @ more", OF _ assms])
  fix f :: "(nat \<Rightarrow> com_status) \<Rightarrow> nat \<Rightarrow> com_status \<Rightarrow> sock_event list
     \<Rightarrow> (com_status \<times> sock_event list) option"
  fix con n cs tr and y :: "com_status \<times> sock_event list"
  assume IH: "\<And>con n cs tr y. f con n cs tr = Some y \<Longrightarrow> \<exists>more. snd y = tr @ more"
    and step: "(if COM_TRY_AGAIN = cs \<or> COM_OTHER_ERROR = cs
          then f con (Suc n) (con n)
             (tr @ [if COM_TRY_AGAIN = cs then cout ''.'' else cout ''x'', usleep 250000, Connect])
          else Some (cs, tr)) = Some y"
  show "\<exists>more. snd y = tr @ more"
  proof (cases "COM_TRY_AGAIN = cs \<or> COM_OTHER_ERROR = cs")
    case True
    with step have "f con (Suc n) (con n)
        (tr @ [if COM_TRY_AGAIN = cs then cout ''.'' else cout ''x'', usleep 250000, Connect]) = Some y"
      by simp
    from IH [OF this] obtain more where "snd y =
        (tr @ [if COM_TRY_AGAIN = cs then cout ''.'' else cout ''x'', usleep 250000, Connect]) @ more"
      by blast
    then have "snd y = tr @
        ([if COM_TRY_AGAIN = cs then cout ''.'' else cout ''x'', usleep 250000, Connect] @ more)"
      by simp
    then show ?thesis by blast
  next
    case False
    with step have "snd y = tr @ []" by auto
    then show ?thesis by blast
  qed
qed

lemma server_opens_selected_port:
  assumes "get_tcp_port from_process to_process = Inr port"
    and "TCPServerNetConfig_CreateChannel bind_ip sos from_process to_process = Some (r, tr)"
  shows "take 2 tr = [new_SoServer, Open port True bind_ip]"
proof (cases "sos_Open sos \<and> sos_BindListen sos")
  case False
  with assms show ?thesis
    by (auto simp add: TCPServerNetConfig_CreateChannel_def split: if_splits)
next
  case True
  let ?tr0 = "[new_SoServer, Open port True bind_ip, BindListen 1,
                     cout_accepting from_process to_process, Accept]"
  from assms True obtain y where y: "accept_loop (sos_Accept sos) 1 (sos_Accept sos 0) ?tr0 = Some y"
    and tr: "tr = snd y @ [delete_sock] \<or> tr = snd y @ [cout ''OK\<newline>'']"
    by (auto simp add: TCPServerNetConfig_CreateChannel_def split: option.splits if_splits)
  from accept_loop_extends [OF y] obtain more where "snd y = ?tr0 @ more" by blast
  with tr show ?thesis by auto
qed

lemma client_opens_selected_port:
  assumes "get_tcp_port from_process to_process = Inr port"
    and "TCPClientNetConfig_CreateChannel server_ip soc from_process to_process = Some (r, tr)"
  shows "take 2 tr = [new_SoClient, Open port True server_ip]"
proof (cases "soc_Open soc")
  case False
  with assms show ?thesis
    by (auto simp add: TCPClientNetConfig_CreateChannel_def split: if_splits)
next
  case True
  let ?tr0 = "[new_SoClient, Open port True server_ip,
                     cout_connecting from_process to_process, Connect]"
  from assms True obtain y where y: "connect_loop (soc_Connect soc) 1 (soc_Connect soc 0) ?tr0 = Some y"
    and tr: "tr = snd y @ [delete_sock] \<or> tr = snd y @ [cout ''OK\<newline>'']"
    by (auto simp add: TCPClientNetConfig_CreateChannel_def split: option.splits if_splits)
  from connect_loop_extends [OF y] obtain more where "snd y = ?tr0 @ more" by blast
  with tr show ?thesis by auto
qed

lemma get_tcp_port_unmapped:
  assumes "(from_process, to_process) \<notin> {(SERVO, MODEL), (MODEL, SERVO), (SERVO, USER), (USER, SERVO)}"
  shows "\<exists>e. get_tcp_port from_process to_process = Inl e"
  using assms by (cases from_process; cases to_process) auto

text \<open>
  Claim C1. The port is a function of the role pair alone: (SERVO, MODEL) and (MODEL, SERVO)
  give 9999, (SERVO, USER) and (USER, SERVO) give 8888, and that port is the one either
  \<^verbatim>\<open>CreateChannel\<close> opens its socket on, whatever the socket then answers. For every
  other pair \<^verbatim>\<open>get_tcp_port\<close> throws, and both \<^verbatim>\<open>CreateChannel\<close> variants end with that
  error before any socket is created: their event list is empty.
\<close>

theorem C1_port_is_function_of_role_pair:
  "get_tcp_port SERVO MODEL = Inr 9999 \<and> get_tcp_port MODEL SERVO = Inr 9999
   \<and> get_tcp_port SERVO USER = Inr 8888 \<and> get_tcp_port USER SERVO = Inr 8888
   \<and> (\<forall>port r tr. get_tcp_port from_process to_process = Inr port \<longrightarrow>
         (TCPServerNetConfig_CreateChannel bind_ip sos from_process to_process = Some (r, tr)
            \<longrightarrow> take 2 tr = [new_SoServer, Open port True bind_ip])
       \<and> (TCPClientNetConfig_CreateChannel server_ip soc from_process to_process = Some (r, tr)
            \<longrightarrow> take 2 tr = [new_SoClient, Open port True server_ip]))
   \<and> ((from_process, to_process) \<notin> {(SERVO, MODEL), (MODEL, SERVO), (SERVO, USER), (USER, SERVO)} \<longrightarrow>
        (\<exists>e. get_tcp_port from_process to_process = Inl e
           \<and> TCPServerNetConfig_CreateChannel bind_ip sos from_process to_process = Some (Inl e, [])
           \<and> TCPClientNetConfig_CreateChannel server_ip soc from_process to_process = Some (Inl e, [])))"
proof -
  have mapped: "get_tcp_port SERVO MODEL = Inr 9999 \<and> get_tcp_port MODEL SERVO = Inr 9999
   \<and> get_tcp_port SERVO USER = Inr 8888 \<and> get_tcp_port USER SERVO = Inr 8888"
    by simp
  have used: "\<forall>port r tr. get_tcp_port from_process to_process = Inr port \<longrightarrow>
         (TCPServerNetConfig_CreateChannel bind_ip sos from_process to_process = Some (r, tr)
            \<longrightarrow> take 2 tr = [new_SoServer, Open port True bind_ip])
       \<and> (TCPClientNetConfig_CreateChannel server_ip soc from_process to_process = Some (r, tr)
            \<longrightarrow> take 2 tr = [new_SoClient, Open port True server_ip])"
    using server_opens_selected_port client_opens_selected_port by blast
  have unmapped: "(from_process, to_process) \<notin> {(SERVO, MODEL), (MODEL, SERVO), (SERVO, USER), (USER, SERVO)} \<longrightarrow>
        (\<exists>e. get_tcp_port from_process to_process = Inl e
           \<and> TCPServerNetConfig_CreateChannel bind_ip sos from_process to_process = Some (Inl e, [])
           \<and> TCPClientNetConfig_CreateChannel server_ip soc from_process to_process = Some (Inl e, []))"
  proof
    assume "(from_process, to_process) \<notin> {(SERVO, MODEL), (MODEL, SERVO), (SERVO, USER), (USER, SERVO)}"
    from get_tcp_port_unmapped [OF this] obtain e where e: "get_tcp_port from_process to_process = Inl e" ..
    then show "\<exists>e. get_tcp_port from_process to_process = Inl e
           \<and> TCPServerNetConfig_CreateChannel bind_ip sos from_process to_process = Some (Inl e, [])
           \<and> TCPClientNetConfig_CreateChannel server_ip soc from_process to_process = Some (Inl e, [])"
      by (simp add: TCPServerNetConfig_CreateChannel_def TCPClientNetConfig_CreateChannel_def)
  qed
  from mapped used unmapped show ?thesis by blast
qed

theorem C1_port_is_function_of_role_pair_witness:
  "get_tcp_port USER MODEL = Inl (invalid_to_process USER MODEL)
   \<and> TCPServerNetConfig_CreateChannel ''127.0.0.1''
        \<lparr>sos_Open = True, sos_BindListen = True, sos_Accept = (\<lambda>n. COM_OK)\<rparr> USER MODEL
       = Some (Inl (invalid_to_process USER MODEL), [])
   \<and> TCPClientNetConfig_CreateChannel ''127.0.0.1''
        \<lparr>soc_Open = True, soc_Connect = (\<lambda>n. COM_OK)\<rparr> USER MODEL
       = Some (Inl (invalid_to_process USER MODEL), [])
   \<and> TCPServerNetConfig_CreateChannel ''127.0.0.1''
        \<lparr>sos_Open = True, sos_BindListen = True, sos_Accept = (\<lambda>n. COM_OK)\<rparr>
        (OTHER_PROCESS 4) SERVO
       = Some (Inl (invalid_combination (OTHER_PROCESS 4) SERVO), [])"
  using C1_port_is_function_of_role_pair [of USER MODEL "''127.0.0.1''"
      "\<lparr>sos_Open = True, sos_BindListen = True, sos_Accept = (\<lambda>n. COM_OK)\<rparr>" "''127.0.0.1''"
      "\<lparr>soc_Open = True, soc_Connect = (\<lambda>n. COM_OK)\<rparr>"]
    C1_port_is_function_of_role_pair [of "OTHER_PROCESS 4" SERVO "''127.0.0.1''"
      "\<lparr>sos_Open = True, sos_BindListen = True, sos_Accept = (\<lambda>n. COM_OK)\<rparr>" "''127.0.0.1''"
      "\<lparr>soc_Open = True, soc_Connect = (\<lambda>n. COM_OK)\<rparr>"]
  by simp

lemma connect_loop_Some_stops:
  assumes "connect_loop con n cs tr = Some y"
  shows "(cs \<noteq> COM_TRY_AGAIN \<and> cs \<noteq> COM_OTHER_ERROR)
     \<or> (\<exists>j\<ge>n. con j \<noteq> COM_TRY_AGAIN \<and> con j \<noteq> COM_OTHER_ERROR)"
proof (rule connect_loop.raw_induct
    [where P = "\<lambda>con n cs tr y. (cs \<noteq> COM_TRY_AGAIN \<and> cs \<noteq> COM_OTHER_ERROR)
     \<or> (\<exists>j\<ge>n. con j \<noteq> COM_TRY_AGAIN \<and> con j \<noteq> COM_OTHER_ERROR)", OF _ assms])
  fix f :: "(nat \<Rightarrow> com_status) \<Rightarrow> nat \<Rightarrow> com_status \<Rightarrow> sock_event list
     \<Rightarrow> (com_status \<times> sock_event list) option"
  fix con n cs tr and y :: "com_status \<times> sock_event list"
  assume IH: "\<And>con n cs tr y. f con n cs tr = Some y \<Longrightarrow>
      (cs \<noteq> COM_TRY_AGAIN \<and> cs \<noteq> COM_OTHER_ERROR)
        \<or> (\<exists>j\<ge>n. con j \<noteq> COM_TRY_AGAIN \<and> con j \<noteq> COM_OTHER_ERROR)"
    and step: "(if COM_TRY_AGAIN = cs \<or> COM_OTHER_ERROR = cs
          then f con (Suc n) (con n)
             (tr @ [if COM_TRY_AGAIN = cs then cout ''.'' else cout ''x'', usleep 250000, Connect])
          else Some (cs, tr)) = Some y"
  show "(cs \<noteq> COM_TRY_AGAIN \<and> cs \<noteq> COM_OTHER_ERROR)
     \<or> (\<exists>j\<ge>n. con j \<noteq> COM_TRY_AGAIN \<and> con j \<noteq> COM_OTHER_ERROR)"
  proof (cases "COM_TRY_AGAIN = cs \<or> COM_OTHER_ERROR = cs")
    case True
    with step have "f con (Suc n) (con n)
        (tr @ [if COM_TRY_AGAIN = cs then cout ''.'' else cout ''x'', usleep 250000, Connect]) = Some y"
      by simp
    from IH [OF this]
    have "(con n \<noteq> COM_TRY_AGAIN \<and> con n \<noteq> COM_OTHER_ERROR)
        \<or> (\<exists>j\<ge>Suc n. con j \<noteq> COM_TRY_AGAIN \<and> con j \<noteq> COM_OTHER_ERROR)" .
    then show ?thesis
    proof
      assume "con n \<noteq> COM_TRY_AGAIN \<and> con n \<noteq> COM_OTHER_ERROR"
      then have "n \<le> n \<and> con n \<noteq> COM_TRY_AGAIN \<and> con n \<noteq> COM_OTHER_ERROR" by simp
      then show ?thesis by blast
    next
      assume "\<exists>j\<ge>Suc n. con j \<noteq> COM_TRY_AGAIN \<and> con j \<noteq> COM_OTHER_ERROR"
      then obtain j where "Suc n \<le> j" and "con j \<noteq> COM_TRY_AGAIN \<and> con j \<noteq> COM_OTHER_ERROR"
        by blast
      then have "n \<le> j \<and> con j \<noteq> COM_TRY_AGAIN \<and> con j \<noteq> COM_OTHER_ERROR" by simp
      then show ?thesis by blast
    qed
  next
    case False
    then have "cs \<noteq> COM_TRY_AGAIN \<and> cs \<noteq> COM_OTHER_ERROR" by auto
    then show ?thesis by (rule disjI1)
  qed
qed

lemma connect_loop_diverges:
  assumes "\<forall>j. con j = COM_TRY_AGAIN \<or> con j = COM_OTHER_ERROR"
    and "cs = COM_TRY_AGAIN \<or> cs = COM_OTHER_ERROR"
  shows "connect_loop con n cs tr = None"
proof (cases "connect_loop con n cs tr")
  case None
  then show ?thesis .
next
  case (Some y)
  from connect_loop_Some_stops [OF this] assms show ?thesis by blast
qed

text \<open>
  Claim C5, as stated, has every connect error but one abort the loop at once, and has that
  one treated identically to not-yet-available. The loop tests status values: it goes on for
  \<open>COM_TRY_AGAIN\<close> and for \<open>COM_OTHER_ERROR\<close>, the status named for errors in general. A
  \<^verbatim>\<open>Connect()\<close> that fails with \<open>COM_OTHER_ERROR\<close> every time is never given up, and a round
  for that status writes an x where a round for \<open>COM_TRY_AGAIN\<close> writes a dot.
\<close>

theorem C5_other_error_retried_counterexample:
  "TCPClientNetConfig_CreateChannel ''10.0.0.1''
      \<lparr>soc_Open = True, soc_Connect = (\<lambda>n. COM_OTHER_ERROR)\<rparr> USER SERVO = None
   \<and> connect_round COM_OTHER_ERROR \<noteq> connect_round COM_TRY_AGAIN"
  by (simp add: TCPClientNetConfig_CreateChannel_def connect_loop_diverges connect_round_def)

text \<open>
  Claim C5, amended. After a successful \<^verbatim>\<open>Open\<close> the client retries \<^verbatim>\<open>Connect()\<close> with a sleep
  of 250000 microseconds for as long as the status is \<open>COM_TRY_AGAIN\<close> (progress mark: a dot)
  or \<open>COM_OTHER_ERROR\<close> (progress mark: an x). The first status that is neither ends the
  loop at once: \<open>COM_OK\<close> returns the channel, and any other status deletes the socket and
  throws with no further \<^verbatim>\<open>Connect()\<close>; so when the first \<open>k\<close> answers are retried ones
  and answer \<open>k\<close> is not, the call makes exactly \<open>k + 1\<close> attempts. There is no limit:
  when every answer is one of the two retried statuses, the call never returns.
\<close>

theorem C5_client_connect_retry:
  assumes port: "get_tcp_port from_process to_process = Inr port"
    and opened: "soc_Open soc"
  shows "((\<forall>j<k. soc_Connect soc j = COM_TRY_AGAIN \<or> soc_Connect soc j = COM_OTHER_ERROR)
          \<and> soc_Connect soc k \<noteq> COM_TRY_AGAIN \<and> soc_Connect soc k \<noteq> COM_OTHER_ERROR \<longrightarrow>
      TCPClientNetConfig_CreateChannel server_ip soc from_process to_process =
       Some (if soc_Connect soc k = COM_OK then Inr (SoClient port server_ip)
             else Inl (Connect_failed from_process to_process (soc_Connect soc k)),
             [new_SoClient, Open port True server_ip, cout_connecting from_process to_process,
              Connect]
             @ concat (map (\<lambda>j. connect_round (soc_Connect soc j)) [0..<k])
             @ (if soc_Connect soc k = COM_OK then [cout ''OK\<newline>''] else [delete_sock])))
    \<and> ((\<forall>j. soc_Connect soc j = COM_TRY_AGAIN \<or> soc_Connect soc j = COM_OTHER_ERROR) \<longrightarrow>
      TCPClientNetConfig_CreateChannel server_ip soc from_process to_process = None)"
proof (intro conjI impI)
  assume a: "(\<forall>j<k. soc_Connect soc j = COM_TRY_AGAIN \<or> soc_Connect soc j = COM_OTHER_ERROR)
          \<and> soc_Connect soc k \<noteq> COM_TRY_AGAIN \<and> soc_Connect soc k \<noteq> COM_OTHER_ERROR"
  have r: "\<forall>j<k. soc_Connect soc (0 + j) = COM_TRY_AGAIN \<or> soc_Connect soc (0 + j) = COM_OTHER_ERROR"
    using a by simp
  have f: "soc_Connect soc (0 + k) \<noteq> COM_TRY_AGAIN" "soc_Connect soc (0 + k) \<noteq> COM_OTHER_ERROR"
    using a by simp_all
  have loop: "connect_loop (soc_Connect soc) (Suc 0) (soc_Connect soc 0)
        [new_SoClient, Open port True server_ip, cout_connecting from_process to_process, Connect]
      = Some (soc_Connect soc k,
          [new_SoClient, Open port True server_ip, cout_connecting from_process to_process, Connect]
          @ concat (map (\<lambda>j. connect_round (soc_Connect soc j)) [0..<k]))"
    using connect_loop_returns [OF r f] by simp
  show "TCPClientNetConfig_CreateChannel server_ip soc from_process to_process =
       Some (if soc_Connect soc k = COM_OK then Inr (SoClient port server_ip)
             else Inl (Connect_failed from_process to_process (soc_Connect soc k)),
             [new_SoClient, Open port True server_ip, cout_connecting from_process to_process,
              Connect]
             @ concat (map (\<lambda>j. connect_round (soc_Connect soc j)) [0..<k])
             @ (if soc_Connect soc k = COM_OK then [cout ''OK\<newline>''] else [delete_sock]))"
    unfolding TCPClientNetConfig_CreateChannel_def
    using port opened loop by simp
next
  assume a: "\<forall>j. soc_Connect soc j = COM_TRY_AGAIN \<or> soc_Connect soc j = COM_OTHER_ERROR"
  then have "connect_loop (soc_Connect soc) 1 (soc_Connect soc 0)
        [new_SoClient, Open port True server_ip, cout_connecting from_process to_process, Connect]
      = None"
    by (intro connect_loop_diverges) simp_all
  then show "TCPClientNetConfig_CreateChannel server_ip soc from_process to_process = None"
    unfolding TCPClientNetConfig_CreateChannel_def
    using port opened by simp
qed

theorem C5_client_connect_retry_witness:
  "TCPClientNetConfig_CreateChannel ''10.0.0.1''
      \<lparr>soc_Open = True,
       soc_Connect = (\<lambda>n. if n = 0 then COM_OTHER_ERROR else if n = 1 then COM_TRY_AGAIN else COM_OK)\<rparr>
      USER SERVO
    = Some (Inr (SoClient 8888 ''10.0.0.1''),
        [new_SoClient, Open 8888 True ''10.0.0.1'', cout_connecting USER SERVO, Connect,
         cout ''x'', usleep 250000, Connect,
         cout ''.'', usleep 250000, Connect,
         cout ''OK\<newline>''])
   \<and> TCPClientNetConfig_CreateChannel ''10.0.0.1''
      \<lparr>soc_Open = True, soc_Connect = (\<lambda>n. COM_STATUS 3)\<rparr> USER SERVO
    = Some (Inl (Connect_failed USER SERVO (COM_STATUS 3)),
        [new_SoClient, Open 8888 True ''10.0.0.1'', cout_connecting USER SERVO, Connect,
         delete_sock])
   \<and> TCPClientNetConfig_CreateChannel ''10.0.0.1''
      \<lparr>soc_Open = True,
       soc_Connect = (\<lambda>n. if even n then COM_OTHER_ERROR else COM_TRY_AGAIN)\<rparr> USER SERVO
    = None"
  using C5_client_connect_retry [of USER SERVO 8888
      "\<lparr>soc_Open = True,
       soc_Connect = (\<lambda>n. if n = 0 then COM_OTHER_ERROR else if n = 1 then COM_TRY_AGAIN else COM_OK)\<rparr>"
      2 "''10.0.0.1''"]
    C5_client_connect_retry [of USER SERVO 8888
      "\<lparr>soc_Open = True, soc_Connect = (\<lambda>n. COM_STATUS 3)\<rparr>" 0 "''10.0.0.1''"]
    C5_client_connect_retry [of USER SERVO 8888
      "\<lparr>soc_Open = True,
       soc_Connect = (\<lambda>n. if even n then COM_OTHER_ERROR else COM_TRY_AGAIN)\<rparr>" 0 "''10.0.0.1''"]
  by (simp add: connect_round_def numeral_2_eq_2 less_Suc_eq)

text \<open>
  Claim C6, as stated, promises that the accept loop ends once a retry limit is used up.
  \<^verbatim>\<open>CreateChannel\<close> takes no limit and the loop keeps none: with a peer that never
  connects, the call does not return.
\<close>

theorem C6_server_never_returns_counterexample:
  "TCPServerNetConfig_CreateChannel ''0.0.0.0''
      \<lparr>sos_Open = True, sos_BindListen = True, sos_Accept = (\<lambda>n. COM_TRY_AGAIN)\<rparr>
      SERVO MODEL = None"
  by (simp add: TCPServerNetConfig_CreateChannel_def accept_loop_diverges)

text \<open>
  Claim C6, amended. After a successful \<^verbatim>\<open>Open\<close> and \<^verbatim>\<open>BindListen(1)\<close> the server
  retries \<^verbatim>\<open>Accept()\<close> with a fixed sleep of 250000 microseconds for as long as the status
  is \<open>COM_TRY_AGAIN\<close>: when the first \<open>k\<close> answers are \<open>COM_TRY_AGAIN\<close> and answer \<open>k\<close> is
  not, it returns after exactly \<open>k\<close> sleeps, with the channel on \<open>COM_OK\<close> and a thrown
  error on any other status. There is no retry limit: when every answer is
  \<open>COM_TRY_AGAIN\<close> the call never returns.
\<close>

theorem C6_server_accept_retry:
  assumes port: "get_tcp_port from_process to_process = Inr port"
    and opened: "sos_Open sos" and bound: "sos_BindListen sos"
  shows "((\<forall>j<k. sos_Accept sos j = COM_TRY_AGAIN) \<and> sos_Accept sos k \<noteq> COM_TRY_AGAIN \<longrightarrow>
      TCPServerNetConfig_CreateChannel bind_ip sos from_process to_process =
       Some (if sos_Accept sos k = COM_OK then Inr (SoServer port bind_ip)
             else Inl (Accept_failed from_process to_process (sos_Accept sos k)),
             [new_SoServer, Open port True bind_ip, BindListen 1,
              cout_accepting from_process to_process, Accept]
             @ concat (replicate k [cout ''.'', usleep 250000, Accept])
             @ (if sos_Accept sos k = COM_OK then [cout ''OK\<newline>''] else [delete_sock])))
    \<and> ((\<forall>j. sos_Accept sos j = COM_TRY_AGAIN) \<longrightarrow>
      TCPServerNetConfig_CreateChannel bind_ip sos from_process to_process = None)"
proof (intro conjI impI)
  assume a: "(\<forall>j<k. sos_Accept sos j = COM_TRY_AGAIN) \<and> sos_Accept sos k \<noteq> COM_TRY_AGAIN"
  have r: "\<forall>j<k. sos_Accept sos (0 + j) = COM_TRY_AGAIN" using a by simp
  have f: "sos_Accept sos (0 + k) \<noteq> COM_TRY_AGAIN" using a by simp
  have loop: "accept_loop (sos_Accept sos) (Suc 0) (sos_Accept sos 0)
        [new_SoServer, Open port True bind_ip, BindListen 1,
         cout_accepting from_process to_process, Accept]
      = Some (sos_Accept sos k,
          [new_SoServer, Open port True bind_ip, BindListen 1,
           cout_accepting from_process to_process, Accept]
          @ concat (replicate k [cout ''.'', usleep 250000, Accept]))"
    using accept_loop_returns [OF r f] by simp
  show "TCPServerNetConfig_CreateChannel bind_ip sos from_process to_process =
       Some (if sos_Accept sos k = COM_OK then Inr (SoServer port bind_ip)
             else Inl (Accept_failed from_process to_process (sos_Accept sos k)),
             [new_SoServer, Open port True bind_ip, BindListen 1,
              cout_accepting from_process to_process, Accept]
             @ concat (replicate k [cout ''.'', usleep 250000, Accept])
             @ (if sos_Accept sos k = COM_OK then [cout ''OK\<newline>''] else [delete_sock]))"
    unfolding TCPServerNetConfig_CreateChannel_def
    using port opened bound loop by simp
next
  assume a: "\<forall>j. sos_Accept sos j = COM_TRY_AGAIN"
  then have "accept_loop (sos_Accept sos) 1 (sos_Accept sos 0)
        [new_SoServer, Open port True bind_ip, BindListen 1,
         cout_accepting from_process to_process, Accept] = None"
    by (simp add: accept_loop_diverges)
  then show "TCPServerNetConfig_CreateChannel bind_ip sos from_process to_process = None"
    unfolding TCPServerNetConfig_CreateChannel_def
    using port opened bound by simp
qed

theorem C6_server_accept_retry_witness:
  "TCPServerNetConfig_CreateChannel ''0.0.0.0''
      \<lparr>sos_Open = True, sos_BindListen = True,
       sos_Accept = (\<lambda>n. if n < 2 then COM_TRY_AGAIN else COM_OK)\<rparr> SERVO USER
    = Some (Inr (SoServer 8888 ''0.0.0.0''),
        [new_SoServer, Open 8888 True ''0.0.0.0'', BindListen 1, cout_accepting SERVO USER, Accept,
         cout ''.'', usleep 250000, Accept,
         cout ''.'', usleep 250000, Accept,
         cout ''OK\<newline>''])
   \<and> TCPServerNetConfig_CreateChannel ''0.0.0.0''
      \<lparr>sos_Open = True, sos_BindListen = True, sos_Accept = (\<lambda>n. COM_TRY_AGAIN)\<rparr> SERVO USER
    = None"
  using C6_server_accept_retry [of SERVO USER 8888
      "\<lparr>sos_Open = True, sos_BindListen = True,
       sos_Accept = (\<lambda>n. if n < 2 then COM_TRY_AGAIN else COM_OK)\<rparr>" 2 "''0.0.0.0''"]
    C6_server_accept_retry [of SERVO USER 8888
      "\<lparr>sos_Open = True, sos_BindListen = True, sos_Accept = (\<lambda>n. COM_TRY_AGAIN)\<rparr>"
      0 "''0.0.0.0''"]
  by (simp add: numeral_2_eq_2)

section \<open>Properties of parameters and their registry\<close>

lemma set_param_mismatch:
  "class_type p \<noteq> arg_type v \<Longrightarrow>
     set_param p v h = (\<lparr>ok = False, errstr = ''type mismatch''\<rparr>, h)"
  by (cases p; cases v) (simp_all add: Parameter_set_def)

lemma set_param_status: "fst (set_param p v h) = verdict p v h"
  by (cases p; cases v)
    (simp_all add: Parameter_set_def IntegerParameter_set_def StringParameter_set_def
      RealParameter_set_def VectorParameter_set_def MatrixParameter_set_def Let_def
      split: option.splits)

lemma set_param_failed:
  "\<not> ok (fst (set_param p v h)) \<Longrightarrow> snd (set_param p v h) = h"
  by (cases p; cases v)
    (simp_all add: Parameter_set_def IntegerParameter_set_def StringParameter_set_def
      RealParameter_set_def VectorParameter_set_def MatrixParameter_set_def Let_def
      Status_default_def split: option.splits if_splits)

lemma set_param_accepted:
  "class_type p = arg_type v \<Longrightarrow> ok (verdict p v h) \<Longrightarrow>
     stored p (snd (set_param p v h)) = Some v"
  by (cases p; cases v)
    (simp_all add: IntegerParameter_set_def StringParameter_set_def
      RealParameter_set_def VectorParameter_set_def MatrixParameter_set_def Let_def
      split: option.splits)

text \<open>
  Claim C9. For every parameter object and every argument of \<^verbatim>\<open>set\<close>: when the argument's
  type is not the object's, the call reaches a base class overload, returns
  \<^verbatim>\<open>Status(false, "type mismatch")\<close> and changes nothing; the status returned is always the
  checker's verdict (a default, ok status without a checker); a call whose status is not
  ok leaves the whole store, and so the stored value, as it was; and a call of the right
  type whose checker accepts returns an ok status and leaves the argument as the stored value.
\<close>

theorem C9_set_fails_without_effect:
  "(class_type p \<noteq> arg_type v \<longrightarrow>
      set_param p v h = (\<lparr>ok = False, errstr = ''type mismatch''\<rparr>, h))
   \<and> fst (set_param p v h) = verdict p v h
   \<and> (\<not> ok (fst (set_param p v h)) \<longrightarrow>
        snd (set_param p v h) = h \<and> stored p (snd (set_param p v h)) = stored p h)
   \<and> (class_type p = arg_type v \<and> ok (verdict p v h) \<longrightarrow>
        ok (fst (set_param p v h)) \<and> stored p (snd (set_param p v h)) = Some v)"
proof (intro conjI impI)
  assume "class_type p \<noteq> arg_type v"
  then show "set_param p v h = (\<lparr>ok = False, errstr = ''type mismatch''\<rparr>, h)"
    by (rule set_param_mismatch)
next
  show "fst (set_param p v h) = verdict p v h" by (rule set_param_status)
next
  assume "\<not> ok (fst (set_param p v h))"
  then show "snd (set_param p v h) = h" by (rule set_param_failed)
next
  assume "\<not> ok (fst (set_param p v h))"
  then have "snd (set_param p v h) = h" by (rule set_param_failed)
  then show "stored p (snd (set_param p v h)) = stored p h" by simp
next
  assume "class_type p = arg_type v \<and> ok (verdict p v h)"
  then show "ok (fst (set_param p v h))" by (simp add: set_param_status)
next
  assume "class_type p = arg_type v \<and> ok (verdict p v h)"
  then show "stored p (snd (set_param p v h)) = Some v" by (simp add: set_param_accepted)
qed

theorem C9_set_fails_without_effect_witness:
  "set_param kp_param (double_arg 1.5) (zero_store\<lparr>int_heap := (\<lambda>a. 5)\<rparr>)
     = (\<lparr>ok = False, errstr = ''type mismatch''\<rparr>, zero_store\<lparr>int_heap := (\<lambda>a. 5)\<rparr>)
   \<and> fst (set_param kp_param (int_arg 0) (zero_store\<lparr>int_heap := (\<lambda>a. 5)\<rparr>))
     = \<lparr>ok = False, errstr = ''zero''\<rparr>
   \<and> snd (set_param kp_param (int_arg 0) (zero_store\<lparr>int_heap := (\<lambda>a. 5)\<rparr>))
     = zero_store\<lparr>int_heap := (\<lambda>a. 5)\<rparr>
   \<and> stored kp_param (snd (set_param kp_param (int_arg 0) (zero_store\<lparr>int_heap := (\<lambda>a. 5)\<rparr>)))
     = Some (int_arg 5)
   \<and> ok (fst (set_param kp_param (int_arg 7) (zero_store\<lparr>int_heap := (\<lambda>a. 5)\<rparr>)))
   \<and> stored kp_param (snd (set_param kp_param (int_arg 7) (zero_store\<lparr>int_heap := (\<lambda>a. 5)\<rparr>)))
     = Some (int_arg 7)"
  using C9_set_fails_without_effect [of kp_param "double_arg 1.5" "zero_store\<lparr>int_heap := (\<lambda>a. 5)\<rparr>"]
    C9_set_fails_without_effect [of kp_param "int_arg 0" "zero_store\<lparr>int_heap := (\<lambda>a. 5)\<rparr>"]
    C9_set_fails_without_effect [of kp_param "int_arg 7" "zero_store\<lparr>int_heap := (\<lambda>a. 5)\<rparr>"]
  by (simp add: kp_param_def positive_only_def zero_store_def Status_default_def
      ParameterReflection_check_def)

lemma map_insert_present: "m k = Some v \<Longrightarrow> map_insert m k w = m"
  by (simp add: map_insert_def)

lemma map_insert_absent: "m k = None \<Longrightarrow> map_insert m k w = m(k \<mapsto> w)"
  by (simp add: map_insert_def)

text \<open>
  Claim C10. Declaring a parameter under a name that is already registered leaves the
  registry's map as it was, so \<^verbatim>\<open>lookupParameter\<close> still returns the parameter registered
  before. In particular, of two declarations under a fresh name the first one is the one
  looked up afterwards, whatever the type, storage and flags of the second.
\<close>

theorem C10_first_declaration_wins:
  "(lookupParameter this name = Some p \<longrightarrow>
      lookupParameter (snd (declareParameter this name ptr flags)) name = Some p
      \<and> parameter_lookup (snd (declareParameter this name ptr flags)) = parameter_lookup this)
   \<and> (lookupParameter this name = None \<longrightarrow>
      lookupParameter (snd (declareParameter this name ptr flags)) name
        = Some (fst (declareParameter this name ptr flags))
      \<and> lookupParameter
          (snd (declareParameter (snd (declareParameter this name ptr flags)) name ptr' flags')) name
        = Some (fst (declareParameter this name ptr flags)))"
proof (intro conjI impI)
  assume "lookupParameter this name = Some p"
  then have m: "map_insert (parameter_lookup this) name (new_entry this name ptr flags)
      = parameter_lookup this"
    by (simp add: lookupParameter_def map_insert_present)
  then show "parameter_lookup (snd (declareParameter this name ptr flags)) = parameter_lookup this"
    by (simp add: declareParameter_def Let_def)
  with \<open>lookupParameter this name = Some p\<close>
  show "lookupParameter (snd (declareParameter this name ptr flags)) name = Some p"
    by (simp add: lookupParameter_def)
next
  assume none: "lookupParameter this name = None"
  then have m: "map_insert (parameter_lookup this) name (new_entry this name ptr flags)
      = (parameter_lookup this)(name \<mapsto> new_entry this name ptr flags)"
    by (simp add: lookupParameter_def map_insert_absent)
  then show first: "lookupParameter (snd (declareParameter this name ptr flags)) name
        = Some (fst (declareParameter this name ptr flags))"
    by (simp add: declareParameter_def Let_def lookupParameter_def)
  then have "map_insert (parameter_lookup (snd (declareParameter this name ptr flags))) name
       (new_entry (snd (declareParameter this name ptr flags)) name ptr' flags')
      = parameter_lookup (snd (declareParameter this name ptr flags))"
    by (simp add: lookupParameter_def map_insert_present)
  then have "parameter_lookup
        (snd (declareParameter (snd (declareParameter this name ptr flags)) name ptr' flags'))
      = parameter_lookup (snd (declareParameter this name ptr flags))"
    by (simp add: declareParameter_def [of "snd (declareParameter this name ptr flags)"] Let_def)
  with first show "lookupParameter
          (snd (declareParameter (snd (declareParameter this name ptr flags)) name ptr' flags')) name
        = Some (fst (declareParameter this name ptr flags))"
    by (simp add: lookupParameter_def)
qed

theorem C10_first_declaration_wins_witness:
  "lookupParameter
     (snd (declareParameter (snd (declareParameter empty_registry ''kp'' (int_ptr 1) 0))
        ''kp'' (double_ptr 2) 0)) ''kp''
   = Some (IntegerParameter \<lparr>Parameter_name = ''kp'', Parameter_type = PARAMETER_TYPE_INTEGER,
        Parameter_flags = 0, Parameter_checker = Some ParameterReflection_check\<rparr> 1)
   \<and> lookupParameter
     (snd (declareParameter (snd (declareParameter empty_registry ''kp'' (int_ptr 1) 0))
        ''kp'' (double_ptr 2) 0)) ''kp''
   \<noteq> Some (fst (declareParameter (snd (declareParameter empty_registry ''kp'' (int_ptr 1) 0))
        ''kp'' (double_ptr 2) 0))"
  using C10_first_declaration_wins [of empty_registry "''kp''" _ "int_ptr 1" 0 "double_ptr 2" 0]
    C10_first_declaration_wins [of "snd (declareParameter empty_registry ''kp'' (int_ptr 1) 0)"
      "''kp''" "fst (declareParameter empty_registry ''kp'' (int_ptr 1) 0)" "double_ptr 2" 0]
  by (simp add: empty_registry_def declareParameter_def lookupParameter_def Let_def map_insert_def)

section \<open>Properties of the user process\<close>

lemma LOG_TRACE_net: "net (LOG_TRACE env entry s) = net s"
  by (simp add: LOG_TRACE_def)

lemma HandleMessagePayload_net: "net (snd (HandleMessagePayload env msg_id s)) = net s"
  by (simp add: HandleMessagePayload_def Let_def LOG_TRACE_def put_def)

lemma dispatch_net: "net (dispatch env msgs s) = net s"
proof (induction msgs arbitrary: s)
  case Nil
  then show ?case by simp
next
  case (Cons m msgs)
  obtain msg_id payload where m: "m = Incoming msg_id payload" by (cases m)
  show ?case
    unfolding m dispatch.simps
    by (simp add: Cons.IH HandleMessagePayload_net)
qed

lemma Process_ReceiveWait_net:
  "net (snd (Process_ReceiveWait env ms n s)) = net s @ [ReceiveWait ms n]"
  by (simp add: Process_ReceiveWait_def Let_def dispatch_net split: sum.splits)

text \<open>
  Claim C2. \<^verbatim>\<open>SendWaitReceive\<close> enqueues the request message, calls \<^verbatim>\<open>SendWait(10000)\<close>, and,
  unless that throws, empties the reply's code vector, sets the reply's matrix to size
  0 by 0 and calls \<^verbatim>\<open>ReceiveWait(10000, 1)\<close> on the state so prepared. The network operations
  it adds are these three in this order and no other (the first two only, when \<^verbatim>\<open>SendWait\<close>
  throws).
\<close>

theorem C2_SendWaitReceive_steps:
  "(case SendWait_throws env
          (net s @ [EnqueueMessage (UserRequest (m_user_request s)) False False, SendWait 10000]) of
      Some e \<Rightarrow>
        SendWaitReceive env s =
          (Some e, s\<lparr>net := net s @ [EnqueueMessage (UserRequest (m_user_request s)) False False,
                                      SendWait 10000]\<rparr>)
    | None \<Rightarrow>
        SendWaitReceive env s =
          Process_ReceiveWait env 10000 1
            (s\<lparr>net := net s @ [EnqueueMessage (UserRequest (m_user_request s)) False False,
                               SendWait 10000],
               m_user_reply := (m_user_reply s)\<lparr>code := [], matrix := (0, 0)\<rparr>\<rparr>))
   \<and> net (snd (SendWaitReceive env s)) =
       net s @ [EnqueueMessage (UserRequest (m_user_request s)) False False, SendWait 10000]
         @ (if SendWait_throws env
                 (net s @ [EnqueueMessage (UserRequest (m_user_request s)) False False,
                           SendWait 10000]) = None
            then [ReceiveWait 10000 1] else [])"
proof (cases "SendWait_throws env
          (net s @ [EnqueueMessage (UserRequest (m_user_request s)) False False, SendWait 10000])")
  case None
  have run: "SendWaitReceive env s =
          Process_ReceiveWait env 10000 1
            (s\<lparr>net := net s @ [EnqueueMessage (UserRequest (m_user_request s)) False False,
                               SendWait 10000],
               m_user_reply := (m_user_reply s)\<lparr>code := [], matrix := (0, 0)\<rparr>\<rparr>)"
    using None
    by (simp add: SendWaitReceive_def and_then_def Process_EnqueueMessage_def
        Process_SendWait_def Let_def)
  show ?thesis
    using None by (simp add: run Process_ReceiveWait_net)
next
  case (Some e)
  have run: "SendWaitReceive env s =
          (Some e, s\<lparr>net := net s @ [EnqueueMessage (UserRequest (m_user_request s)) False False,
                                      SendWait 10000]\<rparr>)"
    using Some
    by (simp add: SendWaitReceive_def and_then_def Process_EnqueueMessage_def
        Process_SendWait_def Let_def)
  show ?thesis
    using Some by (simp add: run)
qed

theorem C2_SendWaitReceive_steps_witness:
  "net (snd (SendWaitReceive sample_network fresh_process)) =
     [EnqueueMessage (UserRequest \<lparr>requestID = 8, nCodes = 0, code = [], matrix = (0, 0)\<rparr>)
        False False,
      SendWait 10000, ReceiveWait 10000 1]
   \<and> SendWaitReceive sample_network fresh_process =
       Process_ReceiveWait sample_network 10000 1
         (fresh_process
            \<lparr>net := [EnqueueMessage (UserRequest \<lparr>requestID = 8, nCodes = 0, code = [], matrix = (0, 0)\<rparr>)
                       False False, SendWait 10000],
             m_user_reply := \<lparr>requestID = 6, nCodes = 2, code = [], matrix = (0, 0)\<rparr>\<rparr>)"
  using C2_SendWaitReceive_steps [of sample_network fresh_process]
  by (simp add: sample_network_def fresh_process_def Process_ReceiveWait_net)

lemma GetBehaviorList_cached:
  "m_lazy_behavior_list s \<noteq> [] \<Longrightarrow> GetBehaviorList env s = (None, s)"
  by (simp add: GetBehaviorList_def)

lemma GetBehaviorList_net:
  "net (snd (GetBehaviorList env s)) =
     net s @ (if m_lazy_behavior_list s = [] then [ListBehaviors] else [])"
  by (simp add: GetBehaviorList_def Let_def split: prod.splits sum.splits)

lemma GetBehaviorList_calls_cached:
  "m_lazy_behavior_list s \<noteq> [] \<Longrightarrow>
     GetBehaviorList_calls env n s = (replicate n (None, m_lazy_behavior_list s), s)"
  by (induction n) (simp_all add: GetBehaviorList_cached)

text \<open>
  Claim C3. \<^verbatim>\<open>GetBehaviorList\<close> makes a \<^verbatim>\<open>ListBehaviors\<close> round trip exactly when the cached
  list is empty. On a non-empty cache a call changes nothing, so any number of calls in a
  row return the same list with no round trip.
\<close>

theorem C3_behavior_list_fetched_lazily:
  "net (snd (GetBehaviorList env s)) =
     net s @ (if m_lazy_behavior_list s = [] then [ListBehaviors] else [])
   \<and> (m_lazy_behavior_list s \<noteq> [] \<longrightarrow>
        GetBehaviorList env s = (None, s)
        \<and> GetBehaviorList_calls env n s = (replicate n (None, m_lazy_behavior_list s), s))"
  by (simp add: GetBehaviorList_net GetBehaviorList_cached GetBehaviorList_calls_cached)

theorem C3_behavior_list_fetched_lazily_witness:
  "net (snd (GetBehaviorList sample_network fresh_process)) = [ListBehaviors]
   \<and> m_lazy_behavior_list (snd (GetBehaviorList sample_network fresh_process)) = [''float'', ''reach'']
   \<and> GetBehaviorList_calls sample_network 3 (snd (GetBehaviorList sample_network fresh_process)) =
       ([(None, [''float'', ''reach'']), (None, [''float'', ''reach'']), (None, [''float'', ''reach''])],
        snd (GetBehaviorList sample_network fresh_process))
   \<and> net (snd (GetBehaviorList_calls sample_network 3
               (snd (GetBehaviorList sample_network fresh_process)))) = [ListBehaviors]"
  using C3_behavior_list_fetched_lazily [of sample_network fresh_process 0]
    C3_behavior_list_fetched_lazily [of sample_network
      "snd (GetBehaviorList sample_network fresh_process)" 3]
  by (simp add: sample_network_def fresh_process_def GetBehaviorList_def numeral_3_eq_3)

text \<open>
  Claim C4, as stated, has the mismatch logged as a warning. The test and the log statement
  are inside \<^verbatim>\<open>if (logger->isTraceEnabled())\<close> and the statement is \<^verbatim>\<open>LOG_TRACE\<close>: with trace
  logging off, a reply with the wrong request ID is handled and nothing is logged.
\<close>

theorem C4_mismatch_not_logged_counterexample:
  "requestID (m_user_request fresh_process) \<noteq> requestID (m_user_reply fresh_process)
   \<and> logged (snd (HandleMessagePayload sample_network USER_REPLY fresh_process)) = []"
  by (simp add: HandleMessagePayload_def sample_network_def fresh_process_def Let_def put_def)

text \<open>
  Claim C4, amended. For a \<open>USER_REPLY\<close> whose request ID differs from the request's,
  \<^verbatim>\<open>HandleMessagePayload\<close> returns 0 and processes the reply as it would a matching one (it is
  dumped to the console when the step came from the keyboard and curses is off). The
  mismatch itself has one effect only: a trace level log entry, written when trace logging
  is enabled.
\<close>

theorem C4_mismatch_is_not_fatal:
  assumes "requestID (m_user_request s) \<noteq> requestID (m_user_reply s)"
  shows "HandleMessagePayload env USER_REPLY s =
     (0, s\<lparr>console := console s @
              (if \<not> ncurses_active s \<and> keyboard_querry s then [Dump_reply (m_user_reply s)] else []),
            logged := logged s @
              (if isTraceEnabled env
               then [TRACE_requestID_mismatch (requestID (m_user_request s)) (requestID (m_user_reply s)),
                     if 1 < nCodes (m_user_reply s) then TRACE_no_status_info
                     else TRACE_user_reply_status
                            (case code (m_user_reply s) of [] \<Rightarrow> None | c # cs \<Rightarrow> Some c)]
               else [])\<rparr>)"
  using assms
  by (simp add: HandleMessagePayload_def Let_def LOG_TRACE_def put_def)

theorem C4_mismatch_is_not_fatal_witness:
  "HandleMessagePayload (sample_network\<lparr>isTraceEnabled := True\<rparr>) USER_REPLY
      (fresh_process\<lparr>keyboard_querry := True\<rparr>) =
     (0, fresh_process
          \<lparr>keyboard_querry := True,
           console := [Dump_reply \<lparr>requestID = 6, nCodes = 2, code = [1, 2], matrix = (2, 3)\<rparr>],
           logged := [TRACE_requestID_mismatch 8 6, TRACE_no_status_info]\<rparr>)"
  using C4_mismatch_is_not_fatal [of "fresh_process\<lparr>keyboard_querry := True\<rparr>"
      "sample_network\<lparr>isTraceEnabled := True\<rparr>"]
  by (simp add: sample_network_def fresh_process_def)

lemma static_cast_int_small: "n < 2 ^ 31 \<Longrightarrow> static_cast_int n = int n"
proof -
  assume a: "n < 2 ^ 31"
  have "static_cast_int n = sint (word_of_int (int n) :: 32 word)"
    by (simp add: static_cast_int_def)
  also have "\<dots> = signed_take_bit 31 (int n)"
    using sint_sbintrunc' [of "int n", where ?'a = 32] by simp
  also have "\<dots> = int n"
  proof (rule signed_take_bit_int_eq_self)
    show "- (2 ^ 31) \<le> int n" by (rule order_trans [of _ 0]) simp_all
    have "int n < int (2 ^ 31)" using a by (simp only: of_nat_less_iff)
    then show "int n < 2 ^ 31" by simp
  qed
  finally show ?thesis .
qed

lemma getline_line:
  "\<not> cin_fail s \<Longrightarrow> stdin s = l # ls \<Longrightarrow> length l < buflen \<Longrightarrow>
     getline s = (Some l, s\<lparr>stdin := ls\<rparr>)"
  by (simp add: getline_def)

lemma Step_no_token:
  assumes "\<not> cin_fail s" and "stdin s = l # ls" and "length l < buflen"
    and "read_token (c_str l) = None"
  shows "Step env s = (True, put SYNTAX_ERROR_reading_first_token (after_reading ls s))"
proof -
  have "getline (put prompt (s\<lparr>keyboard_querry := False\<rparr>))
      = (Some l, (put prompt (s\<lparr>keyboard_querry := False\<rparr>))\<lparr>stdin := ls\<rparr>)"
    using assms(1-3) by (intro getline_line) (simp_all add: put_def)
  then show ?thesis
    using assms(4) by (simp add: Step_def after_reading_def put_def)
qed

lemma Step_token:
  assumes "\<not> cin_fail s" and "stdin s = l # ls" and "length l < buflen"
    and "read_token (c_str l) = Some (token, rest)"
  shows "Step env s =
     (case command env token rest (after_reading ls s) of
        (Some e, s2) \<Rightarrow> (False, put (EXCEPTION e) s2)
      | (None, s2) \<Rightarrow> (True, s2))"
proof -
  have "getline (put prompt (s\<lparr>keyboard_querry := False\<rparr>))
      = (Some l, (put prompt (s\<lparr>keyboard_querry := False\<rparr>))\<lparr>stdin := ls\<rparr>)"
    using assms(1-3) by (intro getline_line) (simp_all add: put_def)
  then show ?thesis
    using assms(4) by (simp add: Step_def after_reading_def put_def)
qed

lemma Step_token_net:
  assumes "\<not> cin_fail s" and "stdin s = l # ls" and "length l < buflen"
    and "read_token (c_str l) = Some (token, rest)"
  shows "net (snd (Step env s)) = net (snd (command env token rest (after_reading ls s)))"
  by (simp add: Step_token [OF assms] put_def split: prod.splits option.splits)

lemma after_reading_simps:
  "net (after_reading ls s) = net s"
  "m_task_spec (after_reading ls s) = m_task_spec s"
  "m_user_request (after_reading ls s) = m_user_request s"
  "m_lazy_behavior_list (after_reading ls s) = m_lazy_behavior_list s"
  by (simp_all add: after_reading_def)

lemma command_unknown:
  assumes "token \<notin> set known_commands"
  shows "command env token line s = (None, put (SYNTAX_ERROR_unknown_command token) s)"
proof -
  have "''pos'' \<noteq> token" "''endpos'' \<noteq> token" "''vel'' \<noteq> token" "''tau'' \<noteq> token"
    "''go'' \<noteq> token" "''float'' \<noteq> token" "''activate'' \<noteq> token" "''b?'' \<noteq> token"
    "''b'' \<noteq> token" "''B'' \<noteq> token" "''setgoal'' \<noteq> token" "''r'' \<noteq> token"
    "''k'' \<noteq> token" "''xmlrpc'' \<noteq> token" "''setgains'' \<noteq> token"
    using assms unfolding known_commands_def by auto
  then show ?thesis
    unfolding command_def by simp
qed

lemma command_pos: "command env ''pos'' line = and_then (build env get_pos) (send_request env)"
  by (simp add: command_def)

lemma command_endpos:
  "command env ''endpos'' line = and_then (build env get_end_pos) (send_request env)"
  by (simp add: command_def)

lemma command_vel: "command env ''vel'' line = and_then (build env get_vel) (send_request env)"
  by (simp add: command_def)

lemma command_tau: "command env ''tau'' line = and_then (build env get_torques) (send_request env)"
  by (simp add: command_def)

lemma command_float:
  "command env ''float'' line = and_then (build env float_command) (send_request env)"
  by (simp add: command_def)

lemma command_activate:
  "command env ''activate'' line = and_then (build env activate_command) (send_request env)"
  by (simp add: command_def)

lemma command_setgoal:
  "command env ''setgoal'' line = set_numbers env 7 SYNTAX_ERROR_reading_goal set_goal line"
  by (simp add: command_def)

lemma command_setgains:
  "command env ''setgains'' line = set_numbers env 4 SYNTAX_ERROR_reading_gains set_gains line"
  by (simp add: command_def)

lemma command_request:
  assumes "(token, call) \<in> set request_commands"
  shows "command env token line = and_then (build env call) (send_request env)"
  using assms unfolding request_commands_def
  by (auto simp add: command_pos command_endpos command_vel command_tau command_float
      command_activate)

lemma command_numeric:
  assumes "(token, n, call) \<in> set numeric_commands"
  shows "\<exists>complaint. command env token line = set_numbers env n complaint call line"
  using assms unfolding numeric_commands_def
  by (auto simp add: command_setgoal command_setgains)

lemma send_request_net:
  "net (snd (send_request env s)) =
     net s @ [EnqueueMessage (UserRequest (m_user_request s)) False False, SendWait 10000]
       @ (if SendWait_throws env
               (net s @ [EnqueueMessage (UserRequest (m_user_request s)) False False,
                         SendWait 10000]) = None
          then [ReceiveWait 10000 1] else [])"
  by (simp add: send_request_def and_then_def Process_EnqueueMessage_def Process_SendWait_def
      Let_def Process_ReceiveWait_net split: option.splits)

lemma build_send_net:
  "net (snd (and_then (build env call) (send_request env) s)) =
     net s @ [EnqueueMessage (UserRequest (srv env call (m_user_request s))) False False,
              SendWait 10000]
       @ (if SendWait_throws env
               (net s @ [EnqueueMessage (UserRequest (srv env call (m_user_request s))) False False,
                         SendWait 10000]) = None
          then [ReceiveWait 10000 1] else [])"
  by (simp add: and_then_def build_def send_request_net)

lemma set_numbers_net:
  "net (snd (set_numbers env n complaint call line s)) =
     (case read_doubles env n line of
        None \<Rightarrow> net s
      | Some xs \<Rightarrow>
          net s @ [EnqueueMessage (UserRequest (srv env (call xs n) (m_user_request s))) False False,
                   SendWait 10000]
            @ (if SendWait_throws env
                    (net s @ [EnqueueMessage (UserRequest (srv env (call xs n) (m_user_request s)))
                                False False, SendWait 10000]) = None
               then [ReceiveWait 10000 1] else []))"
  by (simp add: set_numbers_def build_send_net put_def split: option.splits)

lemma list_behaviors_cached:
  "m_lazy_behavior_list s \<noteq> [] \<Longrightarrow>
     list_behaviors env s =
       (None, put (behavior_lines (m_lazy_behavior_list s)) (put available_behaviors s))"
  by (simp add: list_behaviors_def GetBehaviorList_cached put_def)

lemma command_list_behaviors: "command env ''b?'' line = list_behaviors env"
  by (simp add: command_def)

lemma command_b: "command env ''b'' line = switch_behavior env ''b'' line"
  by (simp add: command_def)

lemma command_B: "command env ''B'' line = switch_behavior env ''B'' line"
  by (simp add: command_def)

lemma command_switch_behavior:
  "token = ''b'' \<or> token = ''B'' \<Longrightarrow> command env token line = switch_behavior env token line"
  using command_b command_B by blast

lemma switch_behavior_net:
  "\<exists>fetch sent. net (snd (switch_behavior env token line s)) = net s @ fetch @ sent
     \<and> (fetch = [] \<or> fetch = [ListBehaviors] \<and> m_lazy_behavior_list s = [])
     \<and> (sent = [] \<or> (\<exists>ts. sent = [EnqueueMessage (TaskSpecification ts) False False, SendWait 10000]))"
proof (cases "read_int line")
  case None
  then have "net (snd (switch_behavior env token line s)) = net s @ [] @ []"
    by (simp add: switch_behavior_def put_def)
  then show ?thesis by blast
next
  case (Some a)
  obtain bnum rest where a: "a = (bnum, rest)" by (cases a)
  show ?thesis
  proof (cases "0 > bnum")
    case True
    then have "net (snd (switch_behavior env token line s)) = net s @ [] @ []"
      using Some a by (simp add: switch_behavior_def put_def)
    then show ?thesis by blast
  next
    case False
    obtain r s1 where g: "GetBehaviorList env s = (r, s1)" by (cases "GetBehaviorList env s")
    have n1: "net s1 = net s @ (if m_lazy_behavior_list s = [] then [ListBehaviors] else [])"
      using GetBehaviorList_net [of env s] g by simp
    define fetch where "fetch = (if m_lazy_behavior_list s = [] then [ListBehaviors] else [])"
    have f: "fetch = [] \<or> fetch = [ListBehaviors] \<and> m_lazy_behavior_list s = []"
      by (simp add: fetch_def)
    have "\<exists>sent. net (snd (switch_behavior env token line s)) = net s1 @ sent
       \<and> (sent = [] \<or> (\<exists>ts. sent = [EnqueueMessage (TaskSpecification ts) False False, SendWait 10000]))"
    proof (cases r)
      case (Some e)
      then have "net (snd (switch_behavior env token line s)) = net s1 @ []"
        using \<open>read_int line = Some a\<close> a False g by (simp add: switch_behavior_def)
      then show ?thesis by blast
    next
      case None
      show ?thesis
      proof (cases "static_cast_int (length (m_lazy_behavior_list s1)) \<le> bnum
          \<or> (''b'' = token \<and> bnum = uint (behaviorID (m_task_spec s1)))")
        case True
        then have "net (snd (switch_behavior env token line s)) = net s1 @ []"
          using \<open>read_int line = Some a\<close> a False g None
          by (auto simp add: switch_behavior_def put_def Let_def)
        then show ?thesis by blast
      next
        case skip: False
        then have "net (snd (switch_behavior env token line s)) = net s1 @
            [EnqueueMessage (TaskSpecification
               \<lparr>task_requestID = task_requestID (m_task_spec s1) + 1,
                behaviorID = word_of_int bnum\<rparr>) False False, SendWait 10000]"
          using \<open>read_int line = Some a\<close> a False g None
          by (auto simp add: switch_behavior_def Let_def and_then_def Process_EnqueueMessage_def
              Process_SendWait_def)
        then show ?thesis by blast
      qed
    qed
    then obtain sent where "net (snd (switch_behavior env token line s)) = net s1 @ sent"
      and s: "sent = [] \<or> (\<exists>ts. sent = [EnqueueMessage (TaskSpecification ts) False False, SendWait 10000])"
      by blast
    then have "net (snd (switch_behavior env token line s)) = net s @ fetch @ sent"
      by (simp add: n1 fetch_def)
    with f s show ?thesis by blast
  qed
qed

lemma put_net: "net (put ev s) = net s"
  by (simp add: put_def)

lemma getline_net: "getline s = (r, s1) \<Longrightarrow> net s1 = net s"
  by (auto simp add: getline_def split: if_splits list.splits)

lemma getline_request: "getline s = (r, s1) \<Longrightarrow> m_user_request s1 = m_user_request s"
  by (auto simp add: getline_def split: if_splits list.splits)

lemma goal_fields_net: "net (snd (goal_fields env ii goal s)) = net s"
proof (induction env ii goal s rule: goal_fields.induct)
  case (1 env ii goal s)
  obtain r s1 where g: "getline (put (enter_field ii) s) = (r, s1)"
    by (cases "getline (put (enter_field ii) s)")
  have n1: "net s1 = net s"
    using getline_net [OF g] by (simp add: put_net)
  show ?case
  proof (cases "6 \<le> ii")
    case True
    then show ?thesis by (subst goal_fields.simps) simp
  next
    case False
    show ?thesis
    proof (cases r)
      case None
      then show ?thesis
        using False g n1 by (subst goal_fields.simps) (simp add: put_net)
    next
      case (Some buffer)
      show ?thesis
      proof (cases "\<exists>x. read_doubles env 1 (c_str buffer) = Some [x]")
        case True
        then obtain x where x: "read_doubles env 1 (c_str buffer) = Some [x]" by blast
        have "net (snd (goal_fields env (Suc ii) (goal @ [x]) s1)) = net s1"
          using "1.IH"(3) [OF False g [symmetric] Some x refl refl] .
        then show ?thesis
          using False g Some x n1 by (subst goal_fields.simps) simp
      next
        case other: False
        have step: "goal_fields env ii goal s = goal_fields env ii goal (put ERROR_reading_field s1)"
          using False g Some other
          by (subst goal_fields.simps) (auto split: option.splits list.splits)
        have "net (snd (goal_fields env ii goal (put ERROR_reading_field s1)))
            = net (put ERROR_reading_field s1)"
        proof (cases "read_doubles env 1 (c_str buffer)")
          case None
          show ?thesis using "1.IH"(1) [OF False g [symmetric] Some None] .
        next
          case (Some xs)
          show ?thesis
          proof (cases xs)
            case Nil
            show ?thesis
              using "1.IH"(2) [OF False g [symmetric] \<open>r = Some buffer\<close> Some Nil] .
          next
            case (Cons y ys)
            with other Some obtain z zs where ys: "ys = z # zs" by (cases ys) auto
            show ?thesis
              using "1.IH"(4) [OF False g [symmetric] \<open>r = Some buffer\<close> Some Cons ys] .
          qed
        qed
        then show ?thesis
          using step n1 by (simp add: put_net)
      qed
    qed
  qed
qed

lemma InteractiveGoalRequest_net: "net (InteractiveGoalRequest env s) = net s"
proof -
  obtain r s1 where g: "goal_fields env 0 [] (put interactive_goal_request s) = (r, s1)"
    by (cases "goal_fields env 0 [] (put interactive_goal_request s)")
  have "net s1 = net s"
    using goal_fields_net [of env 0 "[]" "put interactive_goal_request s"] g
    by (simp add: put_net)
  then show ?thesis
    using g by (simp add: InteractiveGoalRequest_def split: option.splits)
qed

lemma command_go:
  "command env ''go'' line = and_then (\<lambda>s. (None, InteractiveGoalRequest env s)) (send_request env)"
  by (simp add: command_def)

lemma go_net:
  "net (snd (and_then (\<lambda>s. (None, InteractiveGoalRequest env s)) (send_request env) s)) =
     net s @ [EnqueueMessage (UserRequest (m_user_request (InteractiveGoalRequest env s)))
                False False, SendWait 10000]
       @ (if SendWait_throws env
               (net s @ [EnqueueMessage (UserRequest (m_user_request (InteractiveGoalRequest env s)))
                           False False, SendWait 10000]) = None
          then [ReceiveWait 10000 1] else [])"
  by (simp add: and_then_def send_request_net InteractiveGoalRequest_net)

lemma GetBehaviorList_task_spec: "m_task_spec (snd (GetBehaviorList env s)) = m_task_spec s"
  by (simp add: GetBehaviorList_def Let_def split: prod.splits sum.splits)

lemma GetBehaviorList_fetches:
  "\<exists>k\<le>1. net (snd (GetBehaviorList env s)) = net s @ replicate k ListBehaviors
      \<and> (m_lazy_behavior_list s \<noteq> [] \<longrightarrow> k = 0)"
proof (cases "m_lazy_behavior_list s = []")
  case True
  then have "net (snd (GetBehaviorList env s)) = net s @ replicate 1 ListBehaviors"
    by (simp add: GetBehaviorList_net)
  with True show ?thesis by (intro exI [of _ 1]) simp
next
  case False
  then have "net (snd (GetBehaviorList env s)) = net s @ replicate 0 ListBehaviors"
    by (simp add: GetBehaviorList_net)
  then show ?thesis by (intro exI [of _ 0]) simp
qed

lemma list_behaviors_net:
  "\<exists>k\<le>2. net (snd (list_behaviors env s)) = net s @ replicate k ListBehaviors
      \<and> (m_lazy_behavior_list s \<noteq> [] \<longrightarrow> k = 0)"
proof -
  let ?s0 = "put available_behaviors s"
  obtain r1 s1 where g1: "GetBehaviorList env ?s0 = (r1, s1)" by (cases "GetBehaviorList env ?s0")
  obtain r2 s2 where g2: "GetBehaviorList env s1 = (r2, s2)" by (cases "GetBehaviorList env s1")
  have l0: "m_lazy_behavior_list ?s0 = m_lazy_behavior_list s" by (simp add: put_def)
  from GetBehaviorList_fetches [of env ?s0] g1 obtain k1
    where k1: "k1 \<le> 1" "net s1 = net s @ replicate k1 ListBehaviors"
      "m_lazy_behavior_list s \<noteq> [] \<longrightarrow> k1 = 0"
    by (auto simp add: put_net l0)
  from GetBehaviorList_fetches [of env s1] g2 obtain k2
    where k2: "k2 \<le> 1" "net s2 = net s1 @ replicate k2 ListBehaviors"
      "m_lazy_behavior_list s1 \<noteq> [] \<longrightarrow> k2 = 0"
    by auto
  have cached: "m_lazy_behavior_list s \<noteq> [] \<longrightarrow> s1 = ?s0"
    using g1 by (auto simp add: GetBehaviorList_cached l0)
  have k2': "m_lazy_behavior_list s \<noteq> [] \<longrightarrow> k2 = 0"
    using cached k2(3) l0 by auto
  show ?thesis
  proof (cases r1)
    case (Some e)
    then have "net (snd (list_behaviors env s)) = net s @ replicate k1 ListBehaviors"
      using g1 k1 by (simp add: list_behaviors_def)
    with k1 show ?thesis by (intro exI [of _ k1]) simp
  next
    case None
    have "net (snd (list_behaviors env s)) = net s2"
      using g1 g2 None by (simp add: list_behaviors_def put_net split: option.splits)
    then have "net (snd (list_behaviors env s)) = net s @ replicate (k1 + k2) ListBehaviors"
      using k1 k2 by (simp add: replicate_add)
    with k1 k2 k2' show ?thesis by (intro exI [of _ "k1 + k2"]) simp
  qed
qed

lemma switch_behavior_no_number:
  "read_int line = None \<Longrightarrow>
     switch_behavior env token line s = (None, put SYNTAX_ERROR_reading_behavior_number s)"
  by (simp add: switch_behavior_def)

lemma switch_behavior_negative:
  "read_int line = Some (N, rest) \<Longrightarrow> N < 0 \<Longrightarrow>
     switch_behavior env token line s = (None, put (ERROR_behavior_number_is_negative N) s)"
  by (simp add: switch_behavior_def)

lemma switch_behavior_sends:
  assumes "read_int line = Some (N, rest)" and "0 \<le> N"
  shows "net (snd (switch_behavior env token line s)) =
     net (snd (GetBehaviorList env s))
       @ (if fst (GetBehaviorList env s) = None
             \<and> N < static_cast_int (length (m_lazy_behavior_list (snd (GetBehaviorList env s))))
             \<and> \<not> (token = ''b'' \<and> N = uint (behaviorID (m_task_spec s)))
          then [EnqueueMessage
                  (TaskSpecification \<lparr>task_requestID = task_requestID (m_task_spec s) + 1,
                                      behaviorID = word_of_int N\<rparr>) False False,
                SendWait 10000]
          else [])"
proof -
  obtain r s1 where g: "GetBehaviorList env s = (r, s1)" by (cases "GetBehaviorList env s")
  have ts: "m_task_spec s1 = m_task_spec s"
    using GetBehaviorList_task_spec [of env s] g by simp
  have n: "\<not> 0 > N" using assms(2) by simp
  show ?thesis
  proof (cases r)
    case (Some e)
    then show ?thesis using assms(1) n g by (simp add: switch_behavior_def)
  next
    case None
    show ?thesis
    proof (cases "static_cast_int (length (m_lazy_behavior_list s1)) \<le> N
        \<or> (''b'' = token \<and> N = uint (behaviorID (m_task_spec s1)))")
      case True
      then show ?thesis
        using assms(1) n g None ts
        by (auto simp add: switch_behavior_def Let_def put_net)
    next
      case False
      then show ?thesis
        using assms(1) n g None ts
        by (auto simp add: switch_behavior_def Let_def and_then_def Process_EnqueueMessage_def
            Process_SendWait_def)
    qed
  qed
qed

text \<open>
  Claim C8, as stated, has every recognized command send exactly one request. \<^verbatim>\<open>b?\<close> is a
  recognized command that only prints the behavior list; with the list already cached it
  performs no network operation at all.
\<close>

theorem C8_listing_sends_nothing_counterexample:
  "''b?'' \<in> set known_commands
   \<and> Step sample_network
       (fresh_process\<lparr>stdin := [''b?''], m_lazy_behavior_list := [''float'', ''reach'']\<rparr>) =
     (True, fresh_process
        \<lparr>stdin := [], m_lazy_behavior_list := [''float'', ''reach''], keyboard_querry := True,
         console := [prompt, available_behaviors, behavior_lines [''float'', ''reach'']],
         net := []\<rparr>)"
  by (simp add: known_commands_def Step_def sample_network_def fresh_process_def getline_def
      buflen_def put_def read_token_def c_str_def isspace_def command_def list_behaviors_def
      GetBehaviorList_def)

text \<open>
  Claim C8, amended. Let standard input be good and its next line have fewer than 1024
  characters, so that \<^verbatim>\<open>Step\<close> reads that line.
  \<^item> A line without a token, and a line whose first token is not a known command, get a
    syntax error and no network operation.
  \<^item> Each of \<^verbatim>\<open>pos\<close>, \<^verbatim>\<open>endpos\<close>, \<^verbatim>\<open>vel\<close>, \<^verbatim>\<open>tau\<close>, \<^verbatim>\<open>float\<close> and \<^verbatim>\<open>activate\<close> builds its request,
    enqueues it once, and calls \<^verbatim>\<open>SendWait(10000)\<close> and then, unless that throws,
    \<^verbatim>\<open>ReceiveWait(10000, 1)\<close>: exactly one request. \<^verbatim>\<open>go\<close> does the same with the request as
    the interactive goal dialogue leaves it.
  \<^item> \<^verbatim>\<open>setgoal\<close> and \<^verbatim>\<open>setgains\<close> send exactly one request in the same way when their
    numbers parse, and nothing when they do not.
  \<^item> \<^verbatim>\<open>b?\<close> enqueues no request: its only network operations are fetches of the behavior
    list (at most two, none when the list is cached).
  \<^item> \<^verbatim>\<open>b\<close> and \<^verbatim>\<open>B\<close> send nothing when the number does not parse or is negative. Otherwise
    they fetch the list if it is not cached, and then send exactly one task specification
    (enqueued, \<^verbatim>\<open>SendWait(10000)\<close>, no wait for a reply), with the request ID one higher and
    the number as behavior ID, when the fetch did not throw, the number is below the number
    of behaviors, and the command is not \<^verbatim>\<open>b\<close> for the behavior already running; in every
    other case they send no task specification.
\<close>

theorem C8_console_commands:
  assumes "\<not> cin_fail s" and "stdin s = l # ls" and "length l < buflen"
  shows "(read_token (c_str l) = None \<longrightarrow>
            Step env s = (True, put SYNTAX_ERROR_reading_first_token (after_reading ls s))
            \<and> net (snd (Step env s)) = net s)
     \<and> (\<forall>token rest. read_token (c_str l) = Some (token, rest) \<longrightarrow>
          (token \<notin> set known_commands \<longrightarrow>
             Step env s = (True, put (SYNTAX_ERROR_unknown_command token) (after_reading ls s))
             \<and> net (snd (Step env s)) = net s)
        \<and> (\<forall>call. (token, call) \<in> set request_commands \<longrightarrow>
             net (snd (Step env s)) =
               net s @ [EnqueueMessage (UserRequest (srv env call (m_user_request s))) False False,
                        SendWait 10000]
                 @ (if SendWait_throws env
                         (net s @ [EnqueueMessage (UserRequest (srv env call (m_user_request s)))
                                     False False, SendWait 10000]) = None
                    then [ReceiveWait 10000 1] else []))
        \<and> (token = ''go'' \<longrightarrow>
             net (snd (Step env s)) =
               net s @ [EnqueueMessage
                          (UserRequest
                             (m_user_request (InteractiveGoalRequest env (after_reading ls s))))
                          False False,
                        SendWait 10000]
                 @ (if SendWait_throws env
                         (net s @ [EnqueueMessage
                                     (UserRequest
                                        (m_user_request
                                           (InteractiveGoalRequest env (after_reading ls s))))
                                     False False,
                                   SendWait 10000]) = None
                    then [ReceiveWait 10000 1] else []))
        \<and> (\<forall>n call. (token, n, call) \<in> set numeric_commands \<longrightarrow>
             net (snd (Step env s)) =
               (case read_doubles env n rest of
                  None \<Rightarrow> net s
                | Some xs \<Rightarrow>
                    net s @ [EnqueueMessage (UserRequest (srv env (call xs n) (m_user_request s)))
                               False False, SendWait 10000]
                      @ (if SendWait_throws env
                              (net s @ [EnqueueMessage
                                          (UserRequest (srv env (call xs n) (m_user_request s)))
                                          False False, SendWait 10000]) = None
                         then [ReceiveWait 10000 1] else [])))
        \<and> (token = ''b?'' \<longrightarrow>
             (\<exists>k\<le>2. net (snd (Step env s)) = net s @ replicate k ListBehaviors
                \<and> (m_lazy_behavior_list s \<noteq> [] \<longrightarrow> k = 0))
             \<and> (m_lazy_behavior_list s \<noteq> [] \<longrightarrow>
                  Step env s =
                    (True, put (behavior_lines (m_lazy_behavior_list s))
                             (put available_behaviors (after_reading ls s)))))
        \<and> (token = ''b'' \<or> token = ''B'' \<longrightarrow>
             (read_int rest = None \<longrightarrow>
                Step env s =
                  (True, put SYNTAX_ERROR_reading_behavior_number (after_reading ls s))
                \<and> net (snd (Step env s)) = net s)
             \<and> (\<forall>N rest'. read_int rest = Some (N, rest') \<longrightarrow>
                  (N < 0 \<longrightarrow>
                     Step env s =
                       (True, put (ERROR_behavior_number_is_negative N) (after_reading ls s))
                     \<and> net (snd (Step env s)) = net s)
                \<and> (0 \<le> N \<longrightarrow>
                     net (snd (Step env s)) =
                       net s @ (if m_lazy_behavior_list s = [] then [ListBehaviors] else [])
                         @ (if fst (GetBehaviorList env (after_reading ls s)) = None
                               \<and> N < static_cast_int
                                     (length (m_lazy_behavior_list
                                        (snd (GetBehaviorList env (after_reading ls s)))))
                               \<and> \<not> (token = ''b'' \<and> N = uint (behaviorID (m_task_spec s)))
                            then [EnqueueMessage
                                    (TaskSpecification
                                       \<lparr>task_requestID = task_requestID (m_task_spec s) + 1,
                                        behaviorID = word_of_int N\<rparr>) False False,
                                  SendWait 10000]
                            else []))
                \<and> (m_lazy_behavior_list s \<noteq> [] \<and> length (m_lazy_behavior_list s) < 2 ^ 31
                       \<and> 0 \<le> N \<and> N < int (length (m_lazy_behavior_list s))
                       \<and> \<not> (token = ''b'' \<and> N = uint (behaviorID (m_task_spec s))) \<longrightarrow>
                     net (snd (Step env s)) =
                       net s @ [EnqueueMessage
                                  (TaskSpecification
                                     \<lparr>task_requestID = task_requestID (m_task_spec s) + 1,
                                      behaviorID = word_of_int N\<rparr>) False False,
                                SendWait 10000]))))"
proof (intro conjI allI impI)
  assume "read_token (c_str l) = None"
  then show a: "Step env s = (True, put SYNTAX_ERROR_reading_first_token (after_reading ls s))"
    by (rule Step_no_token [OF assms])
  show "net (snd (Step env s)) = net s"
    by (simp add: a put_net after_reading_simps)
next
  fix token rest
  assume t: "read_token (c_str l) = Some (token, rest)" and u: "token \<notin> set known_commands"
  show a: "Step env s = (True, put (SYNTAX_ERROR_unknown_command token) (after_reading ls s))"
    by (simp add: Step_token [OF assms t] command_unknown [OF u])
  show "net (snd (Step env s)) = net s"
    by (simp add: a put_net after_reading_simps)
next
  fix token rest and call :: "'a srv_call"
  assume t: "read_token (c_str l) = Some (token, rest)"
    and c: "(token, call) \<in> set request_commands"
  show "net (snd (Step env s)) =
               net s @ [EnqueueMessage (UserRequest (srv env call (m_user_request s))) False False,
                        SendWait 10000]
                 @ (if SendWait_throws env
                         (net s @ [EnqueueMessage (UserRequest (srv env call (m_user_request s)))
                                     False False, SendWait 10000]) = None
                    then [ReceiveWait 10000 1] else [])"
    by (simp only: Step_token_net [OF assms t] command_request [OF c] build_send_net
        after_reading_simps)
next
  fix token rest
  assume t: "read_token (c_str l) = Some (token, rest)" and c: "token = ''go''"
  show "net (snd (Step env s)) =
               net s @ [EnqueueMessage
                          (UserRequest
                             (m_user_request (InteractiveGoalRequest env (after_reading ls s))))
                          False False,
                        SendWait 10000]
                 @ (if SendWait_throws env
                         (net s @ [EnqueueMessage
                                     (UserRequest
                                        (m_user_request
                                           (InteractiveGoalRequest env (after_reading ls s))))
                                     False False,
                                   SendWait 10000]) = None
                    then [ReceiveWait 10000 1] else [])"
    unfolding Step_token_net [OF assms t] c command_go go_net
    by (simp only: after_reading_simps)
next
  fix token rest n and call :: "'a list \<Rightarrow> nat \<Rightarrow> 'a srv_call"
  assume t: "read_token (c_str l) = Some (token, rest)"
    and c: "(token, n, call) \<in> set numeric_commands"
  from command_numeric [OF c] obtain complaint
    where "command env token rest = set_numbers env n complaint call rest" by blast
  then show "net (snd (Step env s)) =
               (case read_doubles env n rest of
                  None \<Rightarrow> net s
                | Some xs \<Rightarrow>
                    net s @ [EnqueueMessage (UserRequest (srv env (call xs n) (m_user_request s)))
                               False False, SendWait 10000]
                      @ (if SendWait_throws env
                              (net s @ [EnqueueMessage
                                          (UserRequest (srv env (call xs n) (m_user_request s)))
                                          False False, SendWait 10000]) = None
                         then [ReceiveWait 10000 1] else []))"
    by (simp only: Step_token_net [OF assms t] set_numbers_net after_reading_simps)
next
  fix token rest
  assume t: "read_token (c_str l) = Some (token, rest)" and c: "token = ''b?''"
  show "\<exists>k\<le>2. net (snd (Step env s)) = net s @ replicate k ListBehaviors
                \<and> (m_lazy_behavior_list s \<noteq> [] \<longrightarrow> k = 0)"
    using list_behaviors_net [of env "after_reading ls s"]
    unfolding Step_token_net [OF assms t] c command_list_behaviors
    by (simp only: after_reading_simps)
next
  fix token rest
  assume t: "read_token (c_str l) = Some (token, rest)" and c: "token = ''b?''"
    and n: "m_lazy_behavior_list s \<noteq> []"
  then have "m_lazy_behavior_list (after_reading ls s) \<noteq> []"
    by (simp add: after_reading_simps)
  then show "Step env s =
               (True, put (behavior_lines (m_lazy_behavior_list s))
                        (put available_behaviors (after_reading ls s)))"
    using c by (simp add: Step_token [OF assms t] command_list_behaviors list_behaviors_cached
        after_reading_simps)
next
  fix token rest
  assume t: "read_token (c_str l) = Some (token, rest)" and c: "token = ''b'' \<or> token = ''B''"
    and r: "read_int rest = None"
  show a: "Step env s = (True, put SYNTAX_ERROR_reading_behavior_number (after_reading ls s))"
    by (simp add: Step_token [OF assms t] command_switch_behavior [OF c]
        switch_behavior_no_number [OF r])
  show "net (snd (Step env s)) = net s"
    by (simp add: a put_net after_reading_simps)
next
  fix token rest N rest'
  assume t: "read_token (c_str l) = Some (token, rest)" and c: "token = ''b'' \<or> token = ''B''"
    and r: "read_int rest = Some (N, rest')" and n: "N < 0"
  show a: "Step env s = (True, put (ERROR_behavior_number_is_negative N) (after_reading ls s))"
    by (simp add: Step_token [OF assms t] command_switch_behavior [OF c]
        switch_behavior_negative [OF r n])
  show "net (snd (Step env s)) = net s"
    by (simp add: a put_net after_reading_simps)
next
  fix token rest N rest'
  assume t: "read_token (c_str l) = Some (token, rest)" and c: "token = ''b'' \<or> token = ''B''"
    and r: "read_int rest = Some (N, rest')" and n: "0 \<le> N"
  have f: "net (snd (GetBehaviorList env (after_reading ls s))) =
      net s @ (if m_lazy_behavior_list s = [] then [ListBehaviors] else [])"
    by (simp only: GetBehaviorList_net after_reading_simps)
  show "net (snd (Step env s)) =
                       net s @ (if m_lazy_behavior_list s = [] then [ListBehaviors] else [])
                         @ (if fst (GetBehaviorList env (after_reading ls s)) = None
                               \<and> N < static_cast_int
                                     (length (m_lazy_behavior_list
                                        (snd (GetBehaviorList env (after_reading ls s)))))
                               \<and> \<not> (token = ''b'' \<and> N = uint (behaviorID (m_task_spec s)))
                            then [EnqueueMessage
                                    (TaskSpecification
                                       \<lparr>task_requestID = task_requestID (m_task_spec s) + 1,
                                        behaviorID = word_of_int N\<rparr>) False False,
                                  SendWait 10000]
                            else [])"
    unfolding Step_token_net [OF assms t] command_switch_behavior [OF c]
      switch_behavior_sends [OF r n] f
    by (simp only: after_reading_simps append_assoc)
next
  fix token rest N rest'
  assume t: "read_token (c_str l) = Some (token, rest)" and c: "token = ''b'' \<or> token = ''B''"
    and r: "read_int rest = Some (N, rest')"
    and v: "m_lazy_behavior_list s \<noteq> [] \<and> length (m_lazy_behavior_list s) < 2 ^ 31
                       \<and> 0 \<le> N \<and> N < int (length (m_lazy_behavior_list s))
                       \<and> \<not> (token = ''b'' \<and> N = uint (behaviorID (m_task_spec s)))"
  have n: "0 \<le> N" using v by simp
  have g: "GetBehaviorList env (after_reading ls s) = (None, after_reading ls s)"
    using v by (intro GetBehaviorList_cached) (simp add: after_reading_simps)
  show "net (snd (Step env s)) =
                       net s @ [EnqueueMessage
                                  (TaskSpecification
                                     \<lparr>task_requestID = task_requestID (m_task_spec s) + 1,
                                      behaviorID = word_of_int N\<rparr>) False False,
                                SendWait 10000]"
    unfolding Step_token_net [OF assms t] command_switch_behavior [OF c]
      switch_behavior_sends [OF r n] g
    using v by (simp add: after_reading_simps static_cast_int_small)
qed

theorem C8_console_commands_witness:
  "Step sample_network (fresh_process\<lparr>stdin := [''frobnicate now'']\<rparr>) =
     (True, fresh_process
        \<lparr>stdin := [], keyboard_querry := True,
         console := [prompt, SYNTAX_ERROR_unknown_command ''frobnicate'']\<rparr>)
   \<and> net (snd (Step sample_network (fresh_process\<lparr>stdin := [''frobnicate now'']\<rparr>))) = []
   \<and> net (snd (Step sample_network (fresh_process\<lparr>stdin := [''pos'']\<rparr>))) =
       [EnqueueMessage (UserRequest \<lparr>requestID = 8, nCodes = 0, code = [], matrix = (0, 0)\<rparr>)
          False False,
        SendWait 10000, ReceiveWait 10000 1]
   \<and> net (snd (Step sample_network (fresh_process\<lparr>stdin := [''B 1'']\<rparr>))) =
       [ListBehaviors,
        EnqueueMessage (TaskSpecification \<lparr>task_requestID = 1, behaviorID = 1\<rparr>) False False,
        SendWait 10000]"
  using C8_console_commands
      [of "fresh_process\<lparr>stdin := [''frobnicate now'']\<rparr>" "''frobnicate now''" "[]" sample_network]
    C8_console_commands
      [of "fresh_process\<lparr>stdin := [''pos'']\<rparr>" "''pos''" "[]" sample_network]
    C8_console_commands
      [of "fresh_process\<lparr>stdin := [''B 1'']\<rparr>" "''B 1''" "[]" sample_network]
  by (simp add: fresh_process_def sample_network_def buflen_def read_token_def c_str_def
      isspace_def known_commands_def request_commands_def after_reading_def put_def
      read_int_def isdigit_def decimal_def Let_def GetBehaviorList_def static_cast_int_small)

lemma switch_behavior_too_large_cached:
  assumes "read_int line = Some (N, rest)"
    and "m_lazy_behavior_list s \<noteq> []" and "length (m_lazy_behavior_list s) < 2 ^ 31"
    and "int (length (m_lazy_behavior_list s)) \<le> N"
  shows "switch_behavior env token line s =
     (None, put (ERROR_behavior_number_is_too_large N (int (length (m_lazy_behavior_list s)) - 1)) s)"
proof -
  have "\<not> 0 > N" using assms(4) by simp
  then show ?thesis
    using assms
    by (simp add: switch_behavior_def GetBehaviorList_cached static_cast_int_small Let_def)
qed

lemma switch_behavior_too_large_fetched:
  assumes "read_int line = Some (N, rest)"
    and "m_lazy_behavior_list s = []"
    and "ListBehaviors_answers env (net s @ [ListBehaviors]) [] = (Inr SUCCESS, listing)"
    and "length listing < 2 ^ 31" and "int (length listing) \<le> N"
  shows "switch_behavior env token line s =
     (None, put (ERROR_behavior_number_is_too_large N (int (length listing) - 1))
        (s\<lparr>net := net s @ [ListBehaviors], m_lazy_behavior_list := listing\<rparr>))"
proof -
  have "\<not> 0 > N" using assms(5) by simp
  moreover have "GetBehaviorList env s =
      (None, s\<lparr>net := net s @ [ListBehaviors], m_lazy_behavior_list := listing\<rparr>)"
    using assms(2,3) by (simp add: GetBehaviorList_def Let_def)
  ultimately show ?thesis
    using assms(1,4,5)
    by (simp add: switch_behavior_def static_cast_int_small Let_def)
qed

text \<open>
  Claim C7, as stated, has \<^verbatim>\<open>b 3\<close> with two behaviors end without any message on the
  network. The number of behaviors is \<^verbatim>\<open>GetBehaviorList().size()\<close>: on a process that has not
  fetched the list yet, the command first makes the \<^verbatim>\<open>ListBehaviors\<close> round trip, and
  only then reports the number as too large.
\<close>

theorem C7_too_large_fetches_list_counterexample:
  "net (snd (Step sample_network (fresh_process\<lparr>stdin := [''b 3'']\<rparr>))) = [ListBehaviors]
   \<and> m_lazy_behavior_list (snd (Step sample_network (fresh_process\<lparr>stdin := [''b 3'']\<rparr>)))
       = [''float'', ''reach'']
   \<and> console (snd (Step sample_network (fresh_process\<lparr>stdin := [''b 3'']\<rparr>)))
       = [prompt, ERROR_behavior_number_is_too_large 3 1]"
  by code_simp

text \<open>
  Claim C7, amended. Let \<^verbatim>\<open>Step\<close> read \<^verbatim>\<open>b <N>\<close> or \<^verbatim>\<open>B <N>\<close> with \<open>N\<close> at least the number of
  behaviors (a list of fewer than \<open>2 ^ 31\<close> entries, so that its size fits an \<^verbatim>\<open>int\<close>).
  With the list cached, the step prints the too-large error (with the largest valid number)
  and returns true with no network operation. With the list not cached and fetched
  successfully, the round trip of the fetch is the only network operation. Either way no
  task specification is enqueued or sent, and the task specification's request ID and
  behavior ID stay as they were.
\<close>

theorem C7_behavior_number_too_large:
  assumes "\<not> cin_fail s" and "stdin s = l # ls" and "length l < buflen"
    and "read_token (c_str l) = Some (token, rest)" and "token = ''b'' \<or> token = ''B''"
    and "read_int rest = Some (N, rest')"
  shows "(m_lazy_behavior_list s \<noteq> [] \<and> length (m_lazy_behavior_list s) < 2 ^ 31
            \<and> int (length (m_lazy_behavior_list s)) \<le> N \<longrightarrow>
          Step env s =
            (True, put (ERROR_behavior_number_is_too_large N
                          (int (length (m_lazy_behavior_list s)) - 1)) (after_reading ls s))
          \<and> net (snd (Step env s)) = net s
          \<and> m_task_spec (snd (Step env s)) = m_task_spec s)
     \<and> (\<forall>listing. m_lazy_behavior_list s = []
            \<and> ListBehaviors_answers env (net s @ [ListBehaviors]) [] = (Inr SUCCESS, listing)
            \<and> length listing < 2 ^ 31 \<and> int (length listing) \<le> N \<longrightarrow>
          Step env s =
            (True, put (ERROR_behavior_number_is_too_large N (int (length listing) - 1))
                     ((after_reading ls s)
                        \<lparr>net := net s @ [ListBehaviors], m_lazy_behavior_list := listing\<rparr>))
          \<and> net (snd (Step env s)) = net s @ [ListBehaviors]
          \<and> m_task_spec (snd (Step env s)) = m_task_spec s)"
proof (intro conjI allI impI)
  assume c: "m_lazy_behavior_list s \<noteq> [] \<and> length (m_lazy_behavior_list s) < 2 ^ 31
            \<and> int (length (m_lazy_behavior_list s)) \<le> N"
  have "switch_behavior env token rest (after_reading ls s) =
      (None, put (ERROR_behavior_number_is_too_large N
                    (int (length (m_lazy_behavior_list (after_reading ls s))) - 1))
               (after_reading ls s))"
    using c by (intro switch_behavior_too_large_cached [OF assms(6)])
      (simp_all add: after_reading_simps)
  then show a: "Step env s =
            (True, put (ERROR_behavior_number_is_too_large N
                          (int (length (m_lazy_behavior_list s)) - 1)) (after_reading ls s))"
    by (simp add: Step_token [OF assms(1-4)] command_switch_behavior [OF assms(5)]
        after_reading_simps)
  show "net (snd (Step env s)) = net s"
    by (simp add: a put_def after_reading_def)
  show "m_task_spec (snd (Step env s)) = m_task_spec s"
    by (simp add: a put_def after_reading_def)
next
  fix listing
  assume c: "m_lazy_behavior_list s = []
            \<and> ListBehaviors_answers env (net s @ [ListBehaviors]) [] = (Inr SUCCESS, listing)
            \<and> length listing < 2 ^ 31 \<and> int (length listing) \<le> N"
  have "switch_behavior env token rest (after_reading ls s) =
      (None, put (ERROR_behavior_number_is_too_large N (int (length listing) - 1))
        ((after_reading ls s)\<lparr>net := net (after_reading ls s) @ [ListBehaviors],
                               m_lazy_behavior_list := listing\<rparr>))"
    using c by (intro switch_behavior_too_large_fetched [OF assms(6)])
      (simp_all add: after_reading_simps)
  then show a: "Step env s =
            (True, put (ERROR_behavior_number_is_too_large N (int (length listing) - 1))
                     ((after_reading ls s)
                        \<lparr>net := net s @ [ListBehaviors], m_lazy_behavior_list := listing\<rparr>))"
    by (simp add: Step_token [OF assms(1-4)] command_switch_behavior [OF assms(5)]
        after_reading_simps)
  show "net (snd (Step env s)) = net s @ [ListBehaviors]"
    by (simp add: a put_def after_reading_def)
  show "m_task_spec (snd (Step env s)) = m_task_spec s"
    by (simp add: a put_def after_reading_def)
qed

theorem C7_behavior_number_too_large_witness:
  "Step sample_network
      (fresh_process\<lparr>stdin := [''b 3''], m_lazy_behavior_list := [''float'', ''reach'']\<rparr>) =
     (True, fresh_process
        \<lparr>stdin := [], m_lazy_behavior_list := [''float'', ''reach''], keyboard_querry := True,
         console := [prompt, ERROR_behavior_number_is_too_large 3 1]\<rparr>)
   \<and> net (snd (Step sample_network
        (fresh_process\<lparr>stdin := [''b 3''], m_lazy_behavior_list := [''float'', ''reach'']\<rparr>))) = []
   \<and> m_task_spec (snd (Step sample_network
        (fresh_process\<lparr>stdin := [''b 3''], m_lazy_behavior_list := [''float'', ''reach'']\<rparr>)))
       = \<lparr>task_requestID = 0, behaviorID = 255\<rparr>
   \<and> net (snd (Step sample_network (fresh_process\<lparr>stdin := [''B 2'']\<rparr>))) = [ListBehaviors]
   \<and> m_task_spec (snd (Step sample_network (fresh_process\<lparr>stdin := [''B 2'']\<rparr>)))
       = \<lparr>task_requestID = 0, behaviorID = 255\<rparr>"
  using C7_behavior_number_too_large
      [of "fresh_process\<lparr>stdin := [''b 3''], m_lazy_behavior_list := [''float'', ''reach'']\<rparr>"
          "''b 3''" "[]" "''b''" "'' 3''" 3 "[]" sample_network]
    C7_behavior_number_too_large
      [of "fresh_process\<lparr>stdin := [''B 2'']\<rparr>" "''B 2''" "[]" "''B''" "'' 2''" 2 "[]" sample_network]
  by (simp add: fresh_process_def sample_network_def buflen_def read_token_def c_str_def
      isspace_def read_int_def isdigit_def decimal_def Let_def after_reading_def put_def)

end
